theory Spec2Isabelle
  imports Complex_Main "HOL-Library.Word"
begin

unbundle bit_operations_syntax

section \<open>Python values\<close>

text \<open>
  The engine of \<^verbatim>\<open>decryption_engine.py\<close> works on Python \<^verbatim>\<open>bytes\<close>: a buffer is a
  list of 8-bit words. A Python \<^verbatim>\<open>str\<close> that is compared or printed is a \<open>string\<close>; the
  two that are computed from arbitrary bytes (the \<^verbatim>\<open>repr\<close> of a buffer and a decoded text
  sample) are lists of code points. Python floats are idealised as real numbers, and
  the integers are unbounded.
\<close>

type_synonym byte = "8 word"

type_synonym pystr = "nat list"

definition ascii :: "string \<Rightarrow> byte list" where
  "ascii s = map (\<lambda>c. of_nat (of_char c)) s"

definition codepoints :: "string \<Rightarrow> pystr" where
  "codepoints s = map of_char s"

text \<open>\<^verbatim>\<open>a.startswith(p)\<close>, \<^verbatim>\<open>a.endswith(p)\<close> and \<^verbatim>\<open>needle in hay\<close> on sequences.\<close>

definition startswith :: "'a list \<Rightarrow> 'a list \<Rightarrow> bool" where
  "startswith a p = (take (length p) a = p)"

definition endswith :: "'a list \<Rightarrow> 'a list \<Rightarrow> bool" where
  "endswith a p = (length p \<le> length a \<and> drop (length a - length p) a = p)"

fun contains :: "'a list \<Rightarrow> 'a list \<Rightarrow> bool" where
  "contains [] needle = (needle = [])"
| "contains (h # hay) needle = (startswith (h # hay) needle \<or> contains hay needle)"

text \<open>The slice \<^verbatim>\<open>a[i:j]\<close> for \<open>0 \<le> i\<close>, and \<^verbatim>\<open>range(0, stop, step)\<close> for \<open>0 < step\<close>.\<close>

definition slice :: "'a list \<Rightarrow> nat \<Rightarrow> nat \<Rightarrow> 'a list" where
  "slice a i j = take (j - i) (drop i a)"

definition range_step :: "nat \<Rightarrow> nat \<Rightarrow> nat list" where
  "range_step stop step = map (\<lambda>k. k * step) [0..<(stop + step - 1) div step]"

text \<open>\<^verbatim>\<open>bytes.hex()\<close>: two lower-case hexadecimal digits for each byte.\<close>

definition hex_digit :: "nat \<Rightarrow> char" where
  "hex_digit n = ''0123456789abcdef'' ! (n mod 16)"

definition hex :: "byte list \<Rightarrow> string" where
  "hex bs = concat (map (\<lambda>b. [hex_digit (unat b div 16), hex_digit (unat b)]) bs)"

text \<open>
  \<^verbatim>\<open>str(data)\<close> of a \<^verbatim>\<open>bytes\<close> object is its \<^verbatim>\<open>repr\<close>: \<^verbatim>\<open>b'...'\<close>, in double quotes when
  the buffer holds a single quote and no double quote, with the quote and the backslash
  escaped, tab, newline and carriage return as \<^verbatim>\<open>\t\<close>, \<^verbatim>\<open>\n\<close>, \<^verbatim>\<open>\r\<close>, and every other
  byte outside \<^verbatim>\<open>0x20..0x7e\<close> as \<^verbatim>\<open>\xNN\<close>.
\<close>

definition repr_byte :: "byte \<Rightarrow> byte \<Rightarrow> pystr" where
  "repr_byte quote b =
     (if b = quote \<or> b = 0x5C then [0x5C, unat b]
      else if b = 0x09 then [0x5C, of_char CHR ''t'']
      else if b = 0x0A then [0x5C, of_char CHR ''n'']
      else if b = 0x0D then [0x5C, of_char CHR ''r'']
      else if b < 0x20 \<or> 0x7F \<le> b
        then [0x5C, of_char CHR ''x'',
              of_char (hex_digit (unat b div 16)), of_char (hex_digit (unat b))]
      else [unat b])"

definition bytes_repr :: "byte list \<Rightarrow> pystr" where
  "bytes_repr data =
     (let quote = (if 0x27 \<in> set data \<and> 0x22 \<notin> set data then 0x22 else 0x27)
      in [of_char CHR ''b'', unat quote] @ concat (map (repr_byte quote) data) @ [unat quote])"

text \<open>The exceptions a call can raise, and \<^verbatim>\<open>str(e)\<close> of each.\<close>

datatype py_error =
    IndexError       \<comment> \<open>\<^verbatim>\<open>key_size_range[k]\<close> beyond the list\<close>
  | ValueErrorRange  \<comment> \<open>\<^verbatim>\<open>range(0, n, 0)\<close>\<close>
  | ValueErrorEmpty  \<comment> \<open>\<^verbatim>\<open>np.min\<close> of an empty array\<close>
  | ZeroDivisionError

fun error_str :: "py_error \<Rightarrow> string" where
  "error_str IndexError = ''list index out of range''"
| "error_str ValueErrorRange = ''range() arg 3 must not be zero''"
| "error_str ValueErrorEmpty =
     ''zero-size array to reduction operation minimum which has no identity''"
| "error_str ZeroDivisionError = ''division by zero''"

section \<open>Statistical profiler\<close>

subsection \<open>\<^verbatim>\<open>_calculate_entropy\<close>\<close>

text \<open>
  \<^verbatim>\<open>
  def _calculate_entropy(self, data):
      if not data:
          return 0
      entropy = 0
      byte_counts = np.zeros(256, dtype=int)
      for byte in data:
          byte_counts[byte] += 1
      probabilities = byte_counts / len(data)
      for p in probabilities:
          if p > 0:
              entropy -= p * np.log2(p)
      return entropy
  \<close>
  \<open>all_bytes\<close> is the index range of the 256 counters, \<open>count_list data b\<close> the counter
  of byte \<open>b\<close> after the counting loop.
\<close>

definition all_bytes :: "byte list" where
  "all_bytes = map of_nat [0..<256]"

definition probabilities :: "byte list \<Rightarrow> real list" where
  "probabilities data = map (\<lambda>b. real (count_list data b) / real (length data)) all_bytes"

definition calculate_entropy :: "byte list \<Rightarrow> real" where
  "calculate_entropy data =
     (if data = [] then 0
      else foldl (\<lambda>entropy p. if p > 0 then entropy - p * log 2 p else entropy) 0
             (probabilities data))"

subsection \<open>\<^verbatim>\<open>_analyze_byte_distribution\<close>\<close>

text \<open>
  The dictionary returned for a non-empty buffer; the empty buffer gives \<^verbatim>\<open>{}\<close>, here
  \<open>None\<close>. \<^verbatim>\<open>np.min\<close> of an empty array raises \<^verbatim>\<open>ValueError\<close>; \<^verbatim>\<open>np.std\<close> is the
  population standard deviation.
\<close>

record byte_stats =
  max_frequency :: real
  min_frequency :: real
  mean_frequency :: real
  std_frequency :: real
  zero_bytes_ratio :: real
  is_uniform :: bool

definition analyze_byte_distribution :: "byte list \<Rightarrow> py_error + byte_stats option" where
  "analyze_byte_distribution data =
     (if length data = 0 then Inr None
      else
        let frequencies = probabilities data;
            nonzero = filter (\<lambda>f. f \<noteq> 0) frequencies;
            max_freq = Max (set frequencies)
        in if nonzero = [] then Inl ValueErrorEmpty
           else
             let min_freq = Min (set nonzero);
                 mean_freq = sum_list nonzero / real (length nonzero);
                 std_freq = sqrt (sum_list (map (\<lambda>f. (f - mean_freq)\<^sup>2) nonzero)
                                   / real (length nonzero));
                 zero_bytes = real (count_list data 0) / real (length data)
             in Inr (Some \<lparr>max_frequency = max_freq, min_frequency = min_freq,
                            mean_frequency = mean_freq, std_frequency = std_freq,
                            zero_bytes_ratio = zero_bytes,
                            is_uniform = (std_freq < 0.002)\<rparr>))"

subsection \<open>\<^verbatim>\<open>_analyze_file_header\<close>\<close>

text \<open>
  The keys \<^verbatim>\<open>header_hex\<close>, \<^verbatim>\<open>possible_encryption\<close> and \<^verbatim>\<open>header_entropy\<close> are set on
  some paths only.
\<close>

record header_info =
  header_hex :: "string option"
  identified :: bool
  file_type :: string
  possible_encryption :: "bool option"
  header_entropy :: "real option"

definition zip_magic :: "byte list" where "zip_magic = [0x50, 0x4B, 0x03, 0x04]"
definition png_magic :: "byte list" where
  "png_magic = [0x89, 0x50, 0x4E, 0x47, 0x0D, 0x0A, 0x1A, 0x0A]"
definition pdf_magic :: "byte list" where "pdf_magic = [0x25, 0x50, 0x44, 0x46]"
definition exe_magic :: "byte list" where "exe_magic = [0x4D, 0x5A]"
definition jpeg_magic :: "byte list" where "jpeg_magic = [0xFF, 0xD8, 0xFF]"

definition is_text_byte :: "byte \<Rightarrow> bool" where
  "is_text_byte b = ((0x20 \<le> b \<and> b \<le> 0x7E) \<or> b \<in> set [0x09, 0x0A, 0x0D])"

definition analyze_file_header :: "byte list \<Rightarrow> header_info" where
  "analyze_file_header data =
     (if length data < 16
      then \<lparr>header_hex = None, identified = False, file_type = ''unknown'',
            possible_encryption = None, header_entropy = None\<rparr>
      else
        let header = slice data 0 16;
            result = \<lparr>header_hex = Some (hex header), identified = False, file_type = '''',
                      possible_encryption = None, header_entropy = None\<rparr>
        in if startswith header zip_magic
             then result\<lparr>identified := True, file_type := ''zip''\<rparr>
           else if startswith header png_magic
             then result\<lparr>identified := True, file_type := ''png''\<rparr>
           else if startswith header pdf_magic
             then result\<lparr>identified := True, file_type := ''pdf''\<rparr>
           else if startswith header exe_magic
             then result\<lparr>identified := True, file_type := ''exe''\<rparr>
           else if startswith header jpeg_magic
             then result\<lparr>identified := True, file_type := ''jpeg''\<rparr>
           else if list_all is_text_byte header
             then result\<lparr>identified := True, file_type := ''text''\<rparr>
           else
             let result = result\<lparr>identified := False, file_type := ''unknown''\<rparr>;
                 h_entropy = calculate_entropy header
             in if h_entropy > 7.0
                  then result\<lparr>possible_encryption := Some True,
                              header_entropy := Some h_entropy\<rparr>
                else result)"

subsection \<open>\<^verbatim>\<open>_detect_encryption_patterns\<close>\<close>

text \<open>
  \<^verbatim>\<open>_has_repeating_blocks\<close> counts the blocks in a dictionary and looks for a count
  above 3.
\<close>

definition count_block :: "(byte list \<rightharpoonup> nat) \<Rightarrow> byte list \<Rightarrow> (byte list \<rightharpoonup> nat)" where
  "count_block blocks block =
     (case blocks block of Some c \<Rightarrow> blocks(block \<mapsto> c + 1) | None \<Rightarrow> blocks(block \<mapsto> 1))"

definition has_repeating_blocks :: "byte list \<Rightarrow> nat \<Rightarrow> bool" where
  "has_repeating_blocks data block_size =
     (if length data < block_size * 2 then False
      else
        let seen = map (\<lambda>i. slice data i (i + block_size))
                     (range_step (length data - block_size) block_size);
            blocks = foldl count_block Map.empty seen
        in list_ex (\<lambda>block. case blocks block of Some c \<Rightarrow> c > 3 | None \<Rightarrow> False) seen)"

text \<open>
  \<^verbatim>\<open>_check_xor_pattern\<close> divides by the number of XOR values, which raises
  \<^verbatim>\<open>ZeroDivisionError\<close> when there is none.
\<close>

definition check_xor_pattern :: "byte list \<Rightarrow> py_error + bool" where
  "check_xor_pattern data =
     (if length data < 100 then Inr False
      else
        let samples = map (\<lambda>i. data ! i) (range_step (min 1000 (length data)) 10);
            xor_values = map (\<lambda>i. (samples ! i) XOR (samples ! (i + 1)))
                           [0..<length samples - 1];
            unique_xors = set xor_values
        in if length xor_values = 0 then Inl ZeroDivisionError
           else Inr (real (card unique_xors) / real (length xor_values) < 0.5))"

definition common_markers :: "string list" where
  "common_markers =
     [''.encrypted'', ''.locked'', ''.crypt'', ''.crypto'', ''.enc'',
      ''DECRYPT_INSTRUCTION'', ''HOW_TO_DECRYPT'', ''YOUR_FILES_ARE_ENCRYPTED'']"

definition check_ransomware_markers :: "byte list \<Rightarrow> bool" where
  "check_ransomware_markers data =
     (let data_str = bytes_repr data
      in list_ex (\<lambda>marker. contains data_str (codepoints marker)) common_markers)"

text \<open>The keys of the pattern dictionary, without their \<^verbatim>\<open>has_\<close> prefix.\<close>

record pattern_info =
  repeating_blocks :: bool
  possible_xor :: bool
  ransomware_markers :: bool

definition detect_encryption_patterns :: "byte list \<Rightarrow> py_error + pattern_info" where
  "detect_encryption_patterns data =
     (let rb = has_repeating_blocks data 16
      in case check_xor_pattern data of
           Inl e \<Rightarrow> Inl e
         | Inr px \<Rightarrow>
             Inr \<lparr>repeating_blocks = rb, possible_xor = px,
                  ransomware_markers = check_ransomware_markers data\<rparr>)"

section \<open>Encryption classifier and strategy selector\<close>

subsection \<open>\<^verbatim>\<open>_determine_encryption_type\<close>\<close>

text \<open>
  \<^verbatim>\<open>byte_distribution.get('is_uniform', False)\<close> is \<open>False\<close> on the empty dictionary.
\<close>

definition uniform_flag :: "byte_stats option \<Rightarrow> bool" where
  "uniform_flag byte_distribution =
     (case byte_distribution of None \<Rightarrow> False | Some s \<Rightarrow> is_uniform s)"

definition determine_encryption_type ::
  "real \<Rightarrow> byte_stats option \<Rightarrow> header_info \<Rightarrow> pattern_info \<Rightarrow> string" where
  "determine_encryption_type entropy byte_distribution header_analysis pattern_analysis =
     (if entropy > 7.8 then
        (if repeating_blocks pattern_analysis then ''AES-ECB''
         else if uniform_flag byte_distribution then ''Strong encryption (AES/RSA)''
         else ''Strong encryption (unknown type)'')
      else if entropy > 7.0 then
        (if possible_xor pattern_analysis then ''XOR encryption''
         else ''Medium-strength encryption (possibly RC4, DES)'')
      else if entropy > 6.0 then
        (if file_type header_analysis \<noteq> ''unknown''
         then ''Weak encryption over '' @ file_type header_analysis @ '' file''
         else ''Simple encryption or encoding'')
      else
        (if ransomware_markers pattern_analysis
         then ''Possible ransomware marker, no strong encryption''
         else ''No encryption detected''))"

subsection \<open>\<^verbatim>\<open>_develop_decryption_strategy\<close>\<close>

text \<open>
  The strategy dictionary: the keys the engine writes or reads, each absent (\<open>None\<close>)
  until set. The caller's tuning flags are never read by the engine.
\<close>

record strategy =
  name :: "string option"
  description :: "string option"
  key_size_range :: "int list option"
  strategy_file_type :: "string option"
  block_size :: "int option"
  success_probability :: "real option"

definition develop_decryption_strategy ::
  "string \<Rightarrow> real \<Rightarrow> byte_stats option \<Rightarrow> header_info \<Rightarrow> pattern_info \<Rightarrow> strategy" where
  "develop_decryption_strategy encryption_type entropy byte_distribution header_analysis
       pattern_analysis =
     (let strategy = \<lparr>name = None, description = None, key_size_range = None,
                       strategy_file_type = None, block_size = None,
                       success_probability = Some 0.0\<rparr>
      in if contains encryption_type ''XOR'' then
           strategy\<lparr>name := Some ''xor_bruteforce'',
                    description := Some ''Attempt XOR decryption with various keys'',
                    key_size_range := Some [1, 8],
                    success_probability := Some 0.7\<rparr>
         else if startswith encryption_type ''Weak encryption'' \<and> identified header_analysis then
           strategy\<lparr>name := Some ''known_header_analysis'',
                    description := Some ''Use known file headers to recover encryption key'',
                    strategy_file_type := Some (file_type header_analysis),
                    success_probability := Some 0.6\<rparr>
         else if repeating_blocks pattern_analysis then
           strategy\<lparr>name := Some ''pattern_based_recovery'',
                    description := Some ''Use repeating patterns to break the encryption'',
                    block_size := Some 16,
                    success_probability := Some 0.5\<rparr>
         else if entropy > 7.0 \<and> \<not> uniform_flag byte_distribution then
           strategy\<lparr>name := Some ''partial_key_recovery'',
                    description := Some ''Attempt to recover partial encryption key'',
                    success_probability := Some 0.3\<rparr>
         else
           strategy\<lparr>name := Some ''generic_recovery'',
                    description := Some ''Try multiple common decryption techniques'',
                    success_probability := Some 0.2\<rparr>)"

subsection \<open>\<^verbatim>\<open>analyze_encryption\<close>\<close>

text \<open>
  The clock is an input: the two readings of \<^verbatim>\<open>time.time()\<close> and the formatted
  \<^verbatim>\<open>datetime.utcnow()\<close>. The buffer is the \<^verbatim>\<open>bytes\<close> value the callers pass, after the
  conversion a \<^verbatim>\<open>BytesIO\<close> or \<^verbatim>\<open>str\<close> argument would get. An exception inside
  \<^verbatim>\<open>analyze_encryption\<close> is logged and raised again, so the model passes it on.
\<close>

record clock =
  start_time :: real
  end_time :: real
  utc_stamp :: string

record analysis =
  encryption_type :: string
  file_size :: nat
  entropy :: real
  analysis_time :: real
  strategy :: strategy

definition analyze_encryption :: "clock \<Rightarrow> byte list \<Rightarrow> py_error + analysis" where
  "analyze_encryption clk content =
     (let size = length content;
          h = calculate_entropy content
      in case analyze_byte_distribution content of
           Inl e \<Rightarrow> Inl e
         | Inr byte_distribution \<Rightarrow>
             let header_analysis = analyze_file_header content
             in case detect_encryption_patterns content of
                  Inl e \<Rightarrow> Inl e
                | Inr pattern_analysis \<Rightarrow>
                    let etype = determine_encryption_type h byte_distribution header_analysis
                                  pattern_analysis;
                        strat = develop_decryption_strategy etype h byte_distribution
                                  header_analysis pattern_analysis
                    in Inr \<lparr>encryption_type = etype, file_size = size, entropy = h,
                            analysis_time = end_time clk - start_time clk,
                            strategy = strat\<rparr>)"

section \<open>Recovery executor\<close>

subsection \<open>\<^verbatim>\<open>_xor_decrypt\<close>\<close>

text \<open>
  \<^verbatim>\<open>
  def _xor_decrypt(self, data, key):
      if not key:
          return data
      result = bytearray(len(data))
      for i in range(len(data)):
          result[i] = data[i] ^ key[i % len(key)]
      return bytes(result)
  \<close>
\<close>

definition xor_decrypt :: "byte list \<Rightarrow> byte list \<Rightarrow> byte list" where
  "xor_decrypt data key =
     (if key = [] then data
      else map (\<lambda>i. (data ! i) XOR (key ! (i mod length key))) [0..<length data])"

subsection \<open>The random generator\<close>

text \<open>
  The module-wide generator of \<^verbatim>\<open>random\<close> is modelled as an arbitrary source of draws:
  the value of the \<open>k\<close>-th draw, read as \<^verbatim>\<open>random.randint(0, 255)\<close> or as
  \<^verbatim>\<open>random.random()\<close>, and the number of draws made so far.
\<close>

record rng =
  randint_at :: "nat \<Rightarrow> byte"
  random_at :: "nat \<Rightarrow> real"
  drawn :: nat

definition randint_0_255 :: "rng \<Rightarrow> byte \<times> rng" where
  "randint_0_255 g = (randint_at g (drawn g), g\<lparr>drawn := Suc (drawn g)\<rparr>)"

definition random_random :: "rng \<Rightarrow> real \<times> rng" where
  "random_random g = (random_at g (drawn g), g\<lparr>drawn := Suc (drawn g)\<rparr>)"

text \<open>\<^verbatim>\<open>bytes([random.randint(0, 255) for _ in range(key_size)])\<close>\<close>

fun random_key :: "nat \<Rightarrow> rng \<Rightarrow> byte list \<times> rng" where
  "random_key 0 g = ([], g)"
| "random_key (Suc n) g =
     (let (b, g1) = randint_0_255 g;
          (bs, g2) = random_key n g1
      in (b # bs, g2))"

subsection \<open>\<^verbatim>\<open>_create_simulated_decryption\<close>\<close>

fun decimal :: "nat \<Rightarrow> string" where
  "decimal n =
     (if n < 10 then [''0123456789'' ! n]
      else decimal (n div 10) @ [''0123456789'' ! (n mod 10)])"

declare decimal.simps [simp del]

definition block_line :: "nat \<Rightarrow> byte list" where
  "block_line i =
     ascii (''BLOCK '' @ decimal i @ '': Decrypted content line '' @ decimal i) @ [0x0A]"

definition simulate_chunk ::
  "byte list \<Rightarrow> byte list list \<times> rng \<Rightarrow> nat \<Rightarrow> byte list list \<times> rng" where
  "simulate_chunk content st i =
     (let (decrypted_parts, g) = st;
          chunk = slice content i (i + 1024);
          (r, g') = random_random g;
          modified_chunk =
            (if r < 0.7 then
               (if i = 0 then
                  (if length chunk \<ge> 8 then ascii ''DECRYPTED'' @ drop 8 chunk
                   else if length chunk \<ge> 4 then ascii ''DECR'' @ drop 4 chunk
                   else chunk)
                else map (\<lambda>b. b + of_nat i) chunk)
             else chunk)
      in (decrypted_parts @ [modified_chunk], g'))"

definition create_simulated_decryption :: "byte list \<Rightarrow> bool \<Rightarrow> rng \<Rightarrow> byte list \<times> rng" where
  "create_simulated_decryption content partial g =
     (if partial then
        (let (decrypted_parts, g') =
               foldl (simulate_chunk content) ([], g) (range_step (length content) 1024)
         in (concat decrypted_parts, g'))
      else
        (let result = ascii ''DECRYPTED_FILE_CONTENT'' @ [0x0A, 0x0A]
                        @ concat (map block_line [0..<20])
         in (if length result < length content
             then result @ replicate (length content - length result) 0x20
             else take (length content) result, g)))"

subsection \<open>\<^verbatim>\<open>_score_decryption_result\<close>\<close>

text \<open>
  \<^verbatim>\<open>bytes.decode('utf-8', errors='ignore')\<close>, as CPython decodes: a well-formed sequence
  gives its code point; an invalid start byte is dropped; a sequence broken by a byte
  that cannot continue it is dropped up to that byte, which is read again; a sequence
  cut off by the end of the input is dropped.
\<close>

definition is_cont :: "byte \<Rightarrow> bool" where
  "is_cont b = (0x80 \<le> b \<and> b \<le> 0xBF)"

definition second_ok :: "byte \<Rightarrow> byte \<Rightarrow> bool" where
  "second_ok b0 b1 =
     (is_cont b1 \<and>
      (if b0 = 0xE0 then 0xA0 \<le> b1
       else if b0 = 0xED then b1 < 0xA0
       else if b0 = 0xF0 then 0x90 \<le> b1
       else if b0 = 0xF4 then b1 < 0x90
       else True))"

fun utf8_decode_ignore :: "byte list \<Rightarrow> pystr" where
  "utf8_decode_ignore [] = []"
| "utf8_decode_ignore (b0 # rest) =
     (if b0 < 0x80 then unat b0 # utf8_decode_ignore rest
      else if b0 < 0xC2 then utf8_decode_ignore rest
      else if b0 < 0xE0 then
        (case rest of
           [] \<Rightarrow> []
         | b1 # r1 \<Rightarrow>
             if is_cont b1
             then ((unat b0 - 0xC0) * 64 + (unat b1 - 0x80)) # utf8_decode_ignore r1
             else utf8_decode_ignore rest)
      else if b0 < 0xF0 then
        (case rest of
           [] \<Rightarrow> []
         | b1 # r1 \<Rightarrow>
             if second_ok b0 b1 then
               (case r1 of
                  [] \<Rightarrow> []
                | b2 # r2 \<Rightarrow>
                    if is_cont b2
                    then ((unat b0 - 0xE0) * 4096 + (unat b1 - 0x80) * 64 + (unat b2 - 0x80))
                           # utf8_decode_ignore r2
                    else utf8_decode_ignore r1)
             else utf8_decode_ignore rest)
      else if b0 < 0xF5 then
        (case rest of
           [] \<Rightarrow> []
         | b1 # r1 \<Rightarrow>
             if second_ok b0 b1 then
               (case r1 of
                  [] \<Rightarrow> []
                | b2 # r2 \<Rightarrow>
                    if is_cont b2 then
                      (case r2 of
                         [] \<Rightarrow> []
                       | b3 # r3 \<Rightarrow>
                           if is_cont b3
                           then ((unat b0 - 0xF0) * 262144 + (unat b1 - 0x80) * 4096
                                   + (unat b2 - 0x80) * 64 + (unat b3 - 0x80))
                                  # utf8_decode_ignore r3
                           else utf8_decode_ignore r2)
                    else utf8_decode_ignore r1)
             else utf8_decode_ignore rest)
      else utf8_decode_ignore rest)"

text \<open>\<^verbatim>\<open>str.strip()\<close> removes the characters for which \<^verbatim>\<open>str.isspace()\<close> holds.\<close>

definition is_space :: "nat \<Rightarrow> bool" where
  "is_space c =
     ((0x09 \<le> c \<and> c \<le> 0x0D) \<or> (0x1C \<le> c \<and> c \<le> 0x20) \<or> c = 0x85 \<or> c = 0xA0
      \<or> c = 0x1680 \<or> (0x2000 \<le> c \<and> c \<le> 0x200A) \<or> c = 0x2028 \<or> c = 0x2029
      \<or> c = 0x202F \<or> c = 0x205F \<or> c = 0x3000)"

definition strip :: "pystr \<Rightarrow> pystr" where
  "strip s = rev (dropWhile is_space (rev (dropWhile is_space s)))"

definition magic_points :: "byte list \<Rightarrow> int" where
  "magic_points data =
     (if startswith data zip_magic then 50
      else if startswith data png_magic then 50
      else if startswith data pdf_magic then 50
      else if startswith data exe_magic then 40
      else if startswith data jpeg_magic then 50
      else 0)"

definition markup_points :: "pystr \<Rightarrow> int" where
  "markup_points text_sample =
     (if startswith text_sample (codepoints ''<!DOCTYPE'')
         \<or> startswith text_sample (codepoints ''<html'') then 20
      else if startswith text_sample (codepoints ''<?xml'') then 20
      else if startswith text_sample (codepoints ''{'')
              \<and> endswith (strip text_sample) (codepoints ''}'') then 15
      else 0)"

definition score_decryption_result :: "byte list option \<Rightarrow> int" where
  "score_decryption_result d =
     (case d of
        None \<Rightarrow> 0
      | Some data \<Rightarrow>
          if length data = 0 then 0
          else
            let score = 0;
                score = score + magic_points data;
                sample = slice data 0 (min 1000 (length data));
                printable_ratio = real (length (filter is_text_byte sample))
                                    / real (min 1000 (length data));
                score = (if printable_ratio > 0.9
                         then score + 40 + markup_points (utf8_decode_ignore sample)
                         else score);
                h = calculate_entropy sample;
                score = (if h < 6.0 then score + 20
                         else if h < 7.0 then score + 10
                         else score)
            in min score 100)"

subsection \<open>The recovery strategies\<close>

text \<open>
  Each strategy returns the tuple \<^verbatim>\<open>(decrypted_content, confidence, key_found, details)\<close>
  and leaves the generator advanced, or raises. A buffer is true in a condition when
  it is neither \<^verbatim>\<open>None\<close> nor empty.
\<close>

datatype detail = DInt int | DReal real | DStr string | DNone

type_synonym details = "string \<rightharpoonup> detail"

type_synonym strategy_result = "byte list option \<times> real \<times> bool \<times> details"

definition truthy :: "byte list option \<Rightarrow> bool" where
  "truthy d = (case d of None \<Rightarrow> False | Some bs \<Rightarrow> bs \<noteq> [])"

definition confidence_of_score :: "int \<Rightarrow> real" where
  "confidence_of_score best = (if best > 0 then min (real_of_int best / 100.0) 1.0 else 0.0)"

text \<open>\<^verbatim>\<open>_apply_xor_bruteforce\<close>: ten random keys for each key size of the range.\<close>

record xor_search =
  best_score :: int
  best_key :: "byte list option"
  best_result :: "byte list option"
  search_rng :: rng

definition xor_attempt :: "byte list \<Rightarrow> nat \<Rightarrow> xor_search \<Rightarrow> nat \<Rightarrow> xor_search" where
  "xor_attempt content key_size st attempt =
     (let (key, g) = random_key key_size (search_rng st);
          decrypted = xor_decrypt content key;
          score = score_decryption_result (Some decrypted)
      in if score > best_score st
         then \<lparr>best_score = score, best_key = Some key, best_result = Some decrypted,
               search_rng = g\<rparr>
         else st\<lparr>search_rng := g\<rparr>)"

definition xor_key_size :: "byte list \<Rightarrow> xor_search \<Rightarrow> int \<Rightarrow> xor_search" where
  "xor_key_size content st key_size = foldl (xor_attempt content (nat key_size)) st [0..<10]"

definition apply_xor_bruteforce ::
  "byte list \<Rightarrow> strategy \<Rightarrow> rng \<Rightarrow> py_error + strategy_result \<times> rng" where
  "apply_xor_bruteforce content strat g =
     (let ksr = (case key_size_range strat of None \<Rightarrow> [1, 4] | Some r \<Rightarrow> r)
      in if length ksr < 2 then Inl IndexError
         else
           let st = foldl (xor_key_size content)
                      \<lparr>best_score = -1, best_key = None, best_result = None, search_rng = g\<rparr>
                      [ksr ! 0 .. ksr ! 1];
               confidence = confidence_of_score (best_score st);
               key_found = (confidence > 0.5);
               details = [''key_size'' \<mapsto> DInt (case best_key st of
                                                 Some k \<Rightarrow> int (length k) | None \<Rightarrow> 0),
                          ''key_hex'' \<mapsto> (case best_key st of
                                           Some k \<Rightarrow> if k \<noteq> [] then DStr (hex k) else DNone
                                         | None \<Rightarrow> DNone),
                          ''decryption_method'' \<mapsto> DStr ''XOR'',
                          ''score'' \<mapsto> DInt (best_score st)]
           in if confidence < 0.4 then
                (let (decrypted_content, g') =
                       create_simulated_decryption content False (search_rng st)
                 in Inr ((Some decrypted_content, 0.75, True,
                          details(''note'' \<mapsto>
                            DStr ''Simulated successful decryption for demonstration purposes'')),
                         g'))
              else Inr ((best_result st, confidence, key_found, details), search_rng st))"

text \<open>\<^verbatim>\<open>_apply_known_header_analysis\<close>\<close>

definition known_headers :: "string \<rightharpoonup> byte list" where
  "known_headers =
     [''zip'' \<mapsto> zip_magic, ''png'' \<mapsto> png_magic, ''pdf'' \<mapsto> ascii ''%PDF-1.'',
      ''exe'' \<mapsto> exe_magic, ''jpeg'' \<mapsto> jpeg_magic, ''text'' \<mapsto> ascii ''<!DOCTYPE'']"

definition header_fallback :: "byte list \<Rightarrow> rng \<Rightarrow> py_error + strategy_result \<times> rng" where
  "header_fallback content g =
     (let (decrypted_content, g') = create_simulated_decryption content True g
      in Inr ((Some decrypted_content, 0.6, True,
               [''decryption_method'' \<mapsto> DStr ''Header-based analysis'',
                ''note'' \<mapsto> DStr ''Simulated partial decryption for demonstration purposes'']),
              g'))"

definition apply_known_header_analysis ::
  "byte list \<Rightarrow> strategy \<Rightarrow> rng \<Rightarrow> py_error + strategy_result \<times> rng" where
  "apply_known_header_analysis content strat g =
     (let ftype = (case strategy_file_type strat of None \<Rightarrow> ''unknown'' | Some t \<Rightarrow> t)
      in case known_headers ftype of
           Some expected_header \<Rightarrow>
             let header_len = length expected_header
             in if length content < header_len
                then Inr ((None, 0.0, False, [''error'' \<mapsto> DStr ''Content too short'']), g)
                else
                  let encrypted_header = slice content 0 header_len;
                      key = map (\<lambda>i. (encrypted_header ! i) XOR (expected_header ! i))
                              [0..<header_len];
                      decrypted = xor_decrypt content key
                  in if startswith decrypted expected_header
                     then Inr ((Some decrypted, 0.8, True,
                                [''key_hex'' \<mapsto> DStr (hex key),
                                 ''decryption_method'' \<mapsto> DStr ''Header-based XOR'',
                                 ''file_type'' \<mapsto> DStr ftype]), g)
                     else header_fallback content g
         | None \<Rightarrow> header_fallback content g)"

text \<open>
  \<^verbatim>\<open>_apply_pattern_based_recovery\<close>: \<^verbatim>\<open>range(0, len(content), block_size)\<close> raises for a
  zero step and is empty for a negative one.
\<close>

definition note_position ::
  "(byte list \<rightharpoonup> nat list) \<Rightarrow> nat \<times> byte list \<Rightarrow> (byte list \<rightharpoonup> nat list)" where
  "note_position block_map ib =
     (case block_map (snd ib) of
        Some positions \<Rightarrow> block_map(snd ib \<mapsto> positions @ [fst ib])
      | None \<Rightarrow> block_map(snd ib \<mapsto> [fst ib]))"

definition apply_pattern_based_recovery ::
  "byte list \<Rightarrow> strategy \<Rightarrow> rng \<Rightarrow> py_error + strategy_result \<times> rng" where
  "apply_pattern_based_recovery content strat g =
     (let bsize = (case block_size strat of None \<Rightarrow> 16 | Some b \<Rightarrow> b)
      in if bsize = 0 then Inl ValueErrorRange
         else
           let blocks = (if bsize < 0 then []
                         else map (\<lambda>i. slice content i (i + nat bsize))
                                (range_step (length content) (nat bsize)));
               block_map = foldl note_position Map.empty (enumerate 0 blocks);
               repeating_blocks =
                 filter (\<lambda>block. case block_map block of
                                    Some positions \<Rightarrow> length positions > 1
                                  | None \<Rightarrow> False)
                   (remdups blocks);
               (decrypted_content, g') = create_simulated_decryption content True g;
               confidence = 0.4 + (real (length repeating_blocks)
                                     / real (max (length blocks) 1)) * 0.3;
               key_found = (confidence > 0.5)
           in Inr ((Some decrypted_content, confidence, key_found,
                    [''decryption_method'' \<mapsto> DStr ''Pattern-based analysis'',
                     ''repeating_blocks_count'' \<mapsto> DInt (int (length repeating_blocks)),
                     ''total_blocks'' \<mapsto> DInt (int (length blocks)),
                     ''note'' \<mapsto> DStr ''Used repeating patterns to partially recover content'']),
                   g'))"

text \<open>\<^verbatim>\<open>_apply_partial_key_recovery\<close>\<close>

definition apply_partial_key_recovery ::
  "byte list \<Rightarrow> strategy \<Rightarrow> rng \<Rightarrow> py_error + strategy_result \<times> rng" where
  "apply_partial_key_recovery content strat g =
     (let h = calculate_entropy content
      in if h > 7.5
         then Inr ((None, 0.3, False,
                    [''decryption_method'' \<mapsto> DStr ''Partial key recovery'',
                     ''entropy'' \<mapsto> DReal h,
                     ''note'' \<mapsto> DStr ''Unable to recover key - entropy too high'']), g)
         else
           let (decrypted_content, g') = create_simulated_decryption content True g
           in Inr ((Some decrypted_content, 0.5, True,
                    [''decryption_method'' \<mapsto> DStr ''Partial key recovery'',
                     ''entropy'' \<mapsto> DReal h,
                     ''note'' \<mapsto> DStr ''Partially recovered encryption key'']), g'))"

text \<open>\<^verbatim>\<open>_apply_generic_recovery\<close>\<close>

definition common_keys :: "byte list list" where
  "common_keys =
     [[0xFF], [0xAA], [0x55], ascii ''key'', ascii ''password'', ascii ''admin'',
      ascii ''123456'']"

definition generic_attempt ::
  "byte list \<Rightarrow> int \<times> byte list option \<Rightarrow> byte list \<Rightarrow> int \<times> byte list option" where
  "generic_attempt content st key =
     (let decrypted = xor_decrypt content key;
          score = score_decryption_result (Some decrypted)
      in if score > fst st then (score, Some decrypted) else st)"

definition apply_generic_recovery ::
  "byte list \<Rightarrow> strategy \<Rightarrow> rng \<Rightarrow> py_error + strategy_result \<times> rng" where
  "apply_generic_recovery content strat g =
     (let st = foldl (generic_attempt content) (-1, None) common_keys;
          reversed_content = rev content;
          score = score_decryption_result (Some reversed_content);
          (best, best_res) = (if score > fst st then (score, Some reversed_content) else st);
          confidence = confidence_of_score best;
          key_found = (confidence > 0.5);
          details = [''decryption_method'' \<mapsto> DStr ''Generic recovery techniques'',
                     ''score'' \<mapsto> DInt best,
                     ''note'' \<mapsto> DStr ''Applied multiple generic recovery methods'']
      in if confidence < 0.3 then
           (let (decrypted_content, g') = create_simulated_decryption content True g
            in Inr ((Some decrypted_content, 0.4, key_found,
                     details(''note'' \<mapsto>
                       DStr ''Simulated partial recovery for demonstration purposes'')), g'))
         else Inr ((best_res, confidence, key_found, details), g))"

subsection \<open>\<^verbatim>\<open>attempt_decryption\<close> and the result cache\<close>

text \<open>
  The state a call works on: the engine's \<^verbatim>\<open>decryption_cache\<close> and the generator. Any
  exception of a strategy is caught and turned into a failed outcome; it is raised before
  the strategy's first draw, so the generator is as it was.
\<close>

record engine =
  decryption_cache :: "string \<rightharpoonup> byte list"
  random_state :: rng

record outcome =
  success_level :: string
  decrypted_content :: "byte list option"
  confidence :: real
  key_found :: bool
  message :: string
  execution_time :: real
  details :: details

definition run_strategy ::
  "byte list \<Rightarrow> strategy \<Rightarrow> rng \<Rightarrow> py_error + strategy_result \<times> rng" where
  "run_strategy content strat g =
     (let strategy_type = (case name strat of None \<Rightarrow> ''unknown'' | Some n \<Rightarrow> n)
      in if strategy_type = ''xor_bruteforce'' then apply_xor_bruteforce content strat g
         else if strategy_type = ''known_header_analysis''
           then apply_known_header_analysis content strat g
         else if strategy_type = ''pattern_based_recovery''
           then apply_pattern_based_recovery content strat g
         else if strategy_type = ''partial_key_recovery''
           then apply_partial_key_recovery content strat g
         else apply_generic_recovery content strat g)"

definition grade :: "byte list option \<Rightarrow> real \<Rightarrow> string \<times> string" where
  "grade content conf =
     (if truthy content \<and> conf > 0.8 then (''full'', ''File successfully decrypted'')
      else if truthy content \<and> conf > 0.3 then (''partial'', ''File partially decrypted'')
      else (''failed'', ''Decryption failed, could not recover file''))"

definition attempt_decryption ::
  "clock \<Rightarrow> byte list \<Rightarrow> strategy \<Rightarrow> engine \<Rightarrow> outcome \<times> engine" where
  "attempt_decryption clk content strat eng =
     (case run_strategy content strat (random_state eng) of
        Inl e \<Rightarrow>
          (\<lparr>success_level = ''failed'', decrypted_content = None, confidence = 0.0,
            key_found = False, message = ''Error during decryption: '' @ error_str e,
            execution_time = end_time clk - start_time clk,
            details = [''error'' \<mapsto> DStr (error_str e)]\<rparr>, eng)
      | Inr ((content', conf, found, dets), g') \<Rightarrow>
          let (level, msg) = grade content' conf;
              eng' = eng\<lparr>random_state := g'\<rparr>;
              result = \<lparr>success_level = level, decrypted_content = content',
                        confidence = conf, key_found = found, message = msg,
                        execution_time = end_time clk - start_time clk, details = dets\<rparr>
          in case content' of
               Some bytes \<Rightarrow>
                 if bytes \<noteq> [] \<and> level \<in> set [''full'', ''partial''] then
                   (let decryption_id = ''decryption_'' @ utc_stamp clk
                    in (result\<lparr>details := dets(''decryption_id'' \<mapsto> DStr decryption_id)\<rparr>,
                        eng'\<lparr>decryption_cache :=
                               (decryption_cache eng')(decryption_id \<mapsto> bytes)\<rparr>))
                 else (result, eng')
             | None \<Rightarrow> (result, eng'))"

definition get_decrypted_content :: "engine \<Rightarrow> string \<Rightarrow> byte list option" where
  "get_decrypted_content eng decryption_id = decryption_cache eng decryption_id"

definition new_engine :: "rng \<Rightarrow> engine" where
  "new_engine g = \<lparr>decryption_cache = Map.empty, random_state = g\<rparr>"

section \<open>The specification's wording\<close>

text \<open>
  The classifier as the specification words it: four entropy bands, each with both of
  its bounds written out.
\<close>

definition classify_spec ::
  "real \<Rightarrow> byte_stats option \<Rightarrow> header_info \<Rightarrow> pattern_info \<Rightarrow> string" where
  "classify_spec h byte_distribution header_analysis pattern_analysis =
     (if h > 7.8 then
        (if repeating_blocks pattern_analysis then ''AES-ECB''
         else if uniform_flag byte_distribution then ''Strong encryption (AES/RSA)''
         else ''Strong encryption (unknown type)'')
      else if 7.0 < h \<and> h \<le> 7.8 then
        (if possible_xor pattern_analysis then ''XOR encryption''
         else ''Medium-strength encryption (possibly RC4, DES)'')
      else if 6.0 < h \<and> h \<le> 7.0 then
        (if file_type header_analysis \<noteq> ''unknown''
         then ''Weak encryption over '' @ file_type header_analysis @ '' file''
         else ''Simple encryption or encoding'')
      else if h \<le> 6.0 then
        (if ransomware_markers pattern_analysis
         then ''Possible ransomware marker, no strong encryption''
         else ''No encryption detected'')
      else '''')"

text \<open>
  The plausibility score as the specification words it: the printable bonus is given
  when at least 90% of the first 1000 bytes are printable or whitespace.
\<close>

definition score_spec :: "byte list \<Rightarrow> int" where
  "score_spec data =
     (if data = [] then 0
      else
        let n = min 1000 (length data);
            sample = take n data;
            printable = length (filter is_text_byte sample);
            h = calculate_entropy sample
        in min 100
             ((if startswith data zip_magic \<or> startswith data png_magic
                  \<or> startswith data pdf_magic \<or> startswith data jpeg_magic then 50
               else if startswith data exe_magic then 40
               else 0)
              + (if 9 * n \<le> 10 * printable
                 then 40 + markup_points (utf8_decode_ignore sample)
                 else 0)
              + (if h < 6.0 then 20 else if h < 7.0 then 10 else 0)))"

text \<open>
  The XOR candidates that \<^verbatim>\<open>_apply_xor_bruteforce\<close> tries, in the specification's terms:
  ten keys for each key size of the range, drawn one after the other from the generator,
  and the highest score observed among them (\<open>-1\<close>, the initial \<^verbatim>\<open>best_score\<close>, when
  no candidate is tried).
\<close>

definition attempt_sizes :: "int list \<Rightarrow> nat list" where
  "attempt_sizes ksr =
     concat (map (\<lambda>key_size. replicate 10 (nat key_size)) [ksr ! 0 .. ksr ! 1])"

fun candidate_keys :: "nat list \<Rightarrow> rng \<Rightarrow> byte list list" where
  "candidate_keys [] g = []"
| "candidate_keys (n # ns) g =
     (case random_key n g of (key, g') \<Rightarrow> key # candidate_keys ns g')"

fun rng_after :: "nat list \<Rightarrow> rng \<Rightarrow> rng" where
  "rng_after [] g = g"
| "rng_after (n # ns) g = rng_after ns (snd (random_key n g))"

definition observed_scores :: "byte list \<Rightarrow> nat list \<Rightarrow> rng \<Rightarrow> int list" where
  "observed_scores content sizes g =
     map (\<lambda>key. score_decryption_result (Some (xor_decrypt content key)))
       (candidate_keys sizes g)"

definition best_observed :: "byte list \<Rightarrow> int list \<Rightarrow> rng \<Rightarrow> int" where
  "best_observed content ksr g = Max (set (-1 # observed_scores content (attempt_sizes ksr) g))"

section \<open>Properties of the XOR transform\<close>

lemma length_xor_decrypt: "length (xor_decrypt data key) = length data"
  by (simp add: xor_decrypt_def)

lemma nth_xor_decrypt:
  "key \<noteq> [] \<Longrightarrow> i < length data \<Longrightarrow>
   xor_decrypt data key ! i = (data ! i) XOR (key ! (i mod length key))"
  by (simp add: xor_decrypt_def)

text \<open>
  Claim C10. Applying \<^verbatim>\<open>_xor_decrypt\<close> twice with the same key gives the buffer back
  (for every key, the non-empty ones in particular), and the empty key leaves the
  buffer unchanged.
\<close>

theorem xor_decrypt_involution:
  "xor_decrypt (xor_decrypt data key) key = data \<and> xor_decrypt data [] = data"
proof
  show "xor_decrypt (xor_decrypt data key) key = data"
  proof (cases "key = []")
    case True
    then show ?thesis by (simp add: xor_decrypt_def)
  next
    case False
    show ?thesis
    proof (rule nth_equalityI)
      show "length (xor_decrypt (xor_decrypt data key) key) = length data"
        by (simp add: length_xor_decrypt)
    next
      fix i assume "i < length (xor_decrypt (xor_decrypt data key) key)"
      then have i: "i < length data" by (simp add: length_xor_decrypt)
      then show "xor_decrypt (xor_decrypt data key) key ! i = data ! i"
        using False by (simp add: nth_xor_decrypt length_xor_decrypt xor.assoc)
    qed
  qed
next
  show "xor_decrypt data [] = data" by (simp add: xor_decrypt_def)
qed

section \<open>Shannon entropy\<close>

lemma set_all_bytes: "set all_bytes = UNIV"
proof -
  have "b \<in> set all_bytes" for b :: byte
  proof -
    have "unat b < 256" using unsigned_less [of b] by simp
    moreover have "of_nat (unat b) = b" by simp
    ultimately show ?thesis unfolding all_bytes_def
      by (metis atLeastLessThan_iff image_eqI le0 set_map set_upt)
  qed
  then show ?thesis by blast
qed

lemma of_nat_byte_inj:
  "x < 256 \<Longrightarrow> y < 256 \<Longrightarrow> (of_nat x :: byte) = of_nat y \<Longrightarrow> x = y"
proof -
  assume a: "x < 256" "y < 256" and e: "(of_nat x :: byte) = of_nat y"
  have "unat (of_nat x :: byte) = x mod 256" "unat (of_nat y :: byte) = y mod 256"
    by (simp_all add: unat_of_nat)
  moreover have "unat (of_nat x :: byte) = unat (of_nat y :: byte)" by (simp only: e)
  ultimately have "x mod 256 = y mod 256" by (simp only:)
  with a show "x = y" by simp
qed

lemma distinct_all_bytes: "distinct all_bytes"
proof -
  have "inj_on (of_nat :: nat \<Rightarrow> byte) {0..<256}"
    by (rule inj_onI) (simp add: of_nat_byte_inj)
  then show ?thesis
    unfolding all_bytes_def distinct_map by (simp only: distinct_upt set_upt simp_thms)
qed

lemma foldl_entropy:
  "foldl (\<lambda>entropy p. if p > 0 then entropy - p * log 2 p else entropy) a ps
     = a - sum_list (map (\<lambda>p::real. if p > 0 then p * log 2 p else 0) ps)"
  by (induction ps arbitrary: a) simp_all

lemma entropy_sum:
  assumes "data \<noteq> []"
  shows "calculate_entropy data =
    - (\<Sum>b\<in>set data. (real (count_list data b) / real (length data)) *
          log 2 (real (count_list data b) / real (length data)))"
proof -
  let ?p = "\<lambda>b. real (count_list data b) / real (length data)"
  let ?t = "\<lambda>p::real. if p > 0 then p * log 2 p else 0"
  have len: "0 < real (length data)" using assms by simp
  have "calculate_entropy data = - sum_list (map ?t (map ?p all_bytes))"
    using assms by (simp add: calculate_entropy_def probabilities_def foldl_entropy)
  also have "sum_list (map ?t (map ?p all_bytes)) = (\<Sum>b\<in>UNIV. ?t (?p b))"
    using distinct_all_bytes by (simp add: sum_list_distinct_conv_sum_set set_all_bytes comp_def)
  also have "(\<Sum>b\<in>UNIV. ?t (?p b)) = (\<Sum>b\<in>set data. ?t (?p b))"
  proof (rule sum.mono_neutral_right)
    show "\<forall>i\<in>UNIV - set data. ?t (?p i) = 0"
      by (simp add: count_list_0_iff)
  qed simp_all
  also have "\<dots> = (\<Sum>b\<in>set data. ?p b * log 2 (?p b))"
  proof (rule sum.cong)
    fix b assume "b \<in> set data"
    then have "0 < count_list data b" by (simp add: count_list_0_iff Suc_le_eq flip: neq0_conv)
    then have "0 < ?p b" using len by simp
    then show "?t (?p b) = ?p b * log 2 (?p b)" by simp
  qed simp
  finally show ?thesis .
qed

lemma sum_probabilities:
  assumes "data \<noteq> []"
  shows "(\<Sum>b\<in>set data. real (count_list data b) / real (length data)) = 1"
proof -
  have "(\<Sum>b\<in>set data. count_list data b) = length data"
    by (rule sum_count_set) simp_all
  then have "(\<Sum>b\<in>set data. real (count_list data b)) = real (length data)"
    by (metis of_nat_sum)
  then show ?thesis using assms by (simp flip: sum_divide_distrib)
qed

lemma entropy_nonneg: "0 \<le> calculate_entropy data"
proof (cases "data = []")
  case True then show ?thesis by (simp add: calculate_entropy_def)
next
  case False
  let ?p = "\<lambda>b. real (count_list data b) / real (length data)"
  have "?p b * log 2 (?p b) \<le> 0" if "b \<in> set data" for b
  proof -
    have "0 < count_list data b" using that by (simp add: count_list_0_iff flip: neq0_conv)
    moreover have "count_list data b \<le> length data" by (rule count_le_length)
    ultimately have "0 < ?p b" "?p b \<le> 1" using False by simp_all
    then have "log 2 (?p b) \<le> 0" by simp
    with \<open>0 < ?p b\<close> show ?thesis by (intro mult_nonneg_nonpos) simp_all
  qed
  then have "(\<Sum>b\<in>set data. ?p b * log 2 (?p b)) \<le> 0" by (rule sum_nonpos)
  then show ?thesis using False by (simp add: entropy_sum)
qed

lemma gibbs_term:
  fixes K p :: real
  assumes K: "0 < K" and p: "0 < p"
  shows "p - 1 / K \<le> p * ln (K * p)"
proof -
  define x where "x = K * p"
  have x: "0 < x" unfolding x_def using K p by (rule mult_pos_pos)
  then have "0 < 1 / x" by (simp only: zero_less_divide_1_iff)
  then have "ln (1 / x) \<le> 1 / x - 1" by (rule ln_le_minus_one)
  moreover have "ln (1 / x) = - ln x" using x by (simp add: ln_div)
  ultimately have "1 - 1 / x \<le> ln x" by simp
  then have "p * (1 - 1 / x) \<le> p * ln x" using p by (simp only: mult_le_cancel_left_pos)
  moreover have "p * (1 - 1 / x) = p - 1 / K" unfolding x_def using p K by (simp add: field_simps)
  ultimately show ?thesis unfolding x_def by simp
qed

lemma ln_split:
  fixes K p :: real
  assumes "0 < K" and "0 < p"
  shows "p * ln (K * p) = p * ln K + p * ln p"
  using assms by (simp add: ln_mult distrib_left)

lemma entropy_le_log_card:
  assumes "data \<noteq> []" and "card (set data) \<le> K" 
  shows "calculate_entropy data \<le> log 2 (real K)"
proof -
  let ?p = "\<lambda>b. real (count_list data b) / real (length data)"
  have K: "0 < real K" using assms
    by (metis card_gt_0_iff List.finite_set set_empty less_le_trans of_nat_0_less_iff)
  have pos: "0 < ?p b" if "b \<in> set data" for b
  proof -
    have "0 < count_list data b" using that by (simp add: count_list_0_iff flip: neq0_conv)
    then show ?thesis using assms by simp
  qed
  have tm: "?p b - 1 / real K \<le> ?p b * ln (real K * ?p b)" if "b \<in> set data" for b
    by (rule gibbs_term [OF K pos [OF that]])
  have "1 - real (card (set data)) / real K = (\<Sum>b\<in>set data. ?p b - 1 / real K)"
    using assms(1) by (simp add: sum_subtractf sum_probabilities)
  also have "\<dots> \<le> (\<Sum>b\<in>set data. ?p b * ln (real K * ?p b))"
    by (rule sum_mono) (rule tm)
  finally have "0 \<le> (\<Sum>b\<in>set data. ?p b * ln (real K * ?p b))"
    using assms(2) K by (smt (verit) divide_le_eq_1_pos of_nat_le_iff)
  also have "(\<Sum>b\<in>set data. ?p b * ln (real K * ?p b))
      = (\<Sum>b\<in>set data. ?p b * ln (real K) + ?p b * ln (?p b))"
    by (rule sum.cong [OF refl]) (rule ln_split [OF K pos])
  also have "\<dots> = ln (real K) + (\<Sum>b\<in>set data. ?p b * ln (?p b))"
    by (simp only: sum.distrib sum_distrib_right [symmetric] sum_probabilities [OF assms(1)] mult_1)
  finally have le: "- (\<Sum>b\<in>set data. ?p b * ln (?p b)) \<le> ln (real K)" by simp
  define S where "S = (\<Sum>b\<in>set data. ?p b * ln (?p b))"
  have "(\<Sum>b\<in>set data. ?p b * log 2 (?p b)) = S / ln 2"
    unfolding S_def log_def sum_divide_distrib by (rule sum.cong) simp_all
  then have "calculate_entropy data = (- S) / ln 2"
    by (simp only: entropy_sum [OF assms(1)] minus_divide_left)
  moreover have "(- S) / ln 2 \<le> ln (real K) / ln 2"
    using le unfolding S_def [symmetric] by (rule divide_right_mono) simp
  ultimately show ?thesis by (simp only: log_def)
qed

lemma entropy_le_8: "calculate_entropy data \<le> 8"
proof (cases "data = []")
  case True then show ?thesis by (simp add: calculate_entropy_def)
next
  case False
  have "card (set data) \<le> card (UNIV :: byte set)" by (rule card_mono) simp_all
  then have "card (set data) \<le> 256" by (simp add: card_word)
  from entropy_le_log_card [OF False this] have "calculate_entropy data \<le> log 2 256" by simp
  moreover have "log 2 256 = (8::real)"
  proof -
    have "log 2 (2 ^ 8) = (8::real)" by (simp only: log_pow_cancel)
    then show ?thesis by simp
  qed
  ultimately show ?thesis by simp
qed

lemma entropy_zeros: "calculate_entropy (replicate n 0) = 0"
proof (cases n)
  case 0 then show ?thesis by (simp add: calculate_entropy_def)
next
  case (Suc m)
  then have ne: "replicate n (0::byte) \<noteq> []" by simp
  have s: "set (replicate n (0::byte)) = {0}" by (rule set_replicate) (use Suc in simp)
  have c: "count_list (replicate n (0::byte)) 0 = n" by (induction n) simp_all
  have "calculate_entropy (replicate n 0) =
      - (real n / real n * log 2 (real n / real n))"
    unfolding entropy_sum [OF ne] s by (simp only: sum.insert_remove finite.emptyI c length_replicate) simp
  also have "\<dots> = 0" using Suc by simp
  finally show ?thesis .
qed

text \<open>
  Claim C8. The entropy computed by \<^verbatim>\<open>_calculate_entropy\<close> lies between 0 and 8 for every
  buffer, and it is exactly 0 for a buffer of \<open>n\<close> zero bytes, the empty buffer
  (\<open>n = 0\<close>) included.
\<close>

theorem calculate_entropy_range:
  "0 \<le> calculate_entropy data \<and> calculate_entropy data \<le> 8
   \<and> calculate_entropy (replicate n 0) = 0 \<and> calculate_entropy [] = 0"
  using entropy_nonneg [of data] entropy_le_8 [of data] entropy_zeros [of n] entropy_zeros [of 0]
  by simp

section \<open>The classifier\<close>

lemma analyze_file_header_identified:
  "identified (analyze_file_header data) = (file_type (analyze_file_header data) \<noteq> ''unknown'')"
  by (simp add: analyze_file_header_def Let_def)

text \<open>
  Claim C3. \<^verbatim>\<open>_determine_encryption_type\<close> is the function of the profile that the
  ordered entropy bands describe, with the comparison operators as stated: above 7.8;
  above 7.0 up to 7.8; above 6.0 up to 7.0; up to 6.0. The header has identified a known
  file type when its \<^verbatim>\<open>file_type\<close> is not \<^verbatim>\<open>unknown\<close>.
\<close>

theorem determine_encryption_type_bands:
  "determine_encryption_type h byte_distribution header_analysis pattern_analysis
     = classify_spec h byte_distribution header_analysis pattern_analysis"
  by (simp add: determine_encryption_type_def classify_spec_def)

lemma classify_at_boundaries:
  "determine_encryption_type 7.8 bd ha \<lparr>repeating_blocks = True, possible_xor = True,
      ransomware_markers = False\<rparr> = ''XOR encryption''"
  "determine_encryption_type 7.0 bd
      \<lparr>header_hex = None, identified = True, file_type = ''zip'',
       possible_encryption = None, header_entropy = None\<rparr>
      \<lparr>repeating_blocks = False, possible_xor = True, ransomware_markers = False\<rparr>
     = ''Weak encryption over zip file''"
  "determine_encryption_type 6.0 bd ha \<lparr>repeating_blocks = False, possible_xor = False,
      ransomware_markers = True\<rparr> = ''Possible ransomware marker, no strong encryption''"
  by (simp_all add: determine_encryption_type_def)

section \<open>Known-header analysis\<close>

lemma header_key_decrypts:
  assumes "length expected \<le> length content"
  shows "startswith
           (xor_decrypt content
              (map (\<lambda>i. (slice content 0 (length expected) ! i) XOR (expected ! i))
                 [0..<length expected]))
           expected"
proof (cases "expected = []")
  case True
  then show ?thesis by (simp add: startswith_def)
next
  case False
  let ?n = "length expected"
  let ?key = "map (\<lambda>i. (slice content 0 ?n ! i) XOR (expected ! i)) [0..<?n]"
  have key: "?key \<noteq> []" using False by simp
  have "take ?n (xor_decrypt content ?key) = expected"
  proof (rule nth_equalityI)
    show "length (take ?n (xor_decrypt content ?key)) = length expected"
      using assms by (simp add: length_xor_decrypt)
  next
    fix i assume "i < length (take ?n (xor_decrypt content ?key))"
    then have i: "i < ?n" by simp
    then have ic: "i < length content" using assms by simp
    have "take ?n (xor_decrypt content ?key) ! i = xor_decrypt content ?key ! i"
      using i by simp
    also have "\<dots> = (content ! i) XOR (?key ! (i mod length ?key))"
      by (rule nth_xor_decrypt [OF key ic])
    also have "?key ! (i mod length ?key) = (content ! i) XOR (expected ! i)"
      using i by (simp add: slice_def)
    also have "(content ! i) XOR ((content ! i) XOR (expected ! i)) = expected ! i"
      by (simp flip: xor.assoc)
    finally show "take ?n (xor_decrypt content ?key) ! i = expected ! i" .
  qed
  then show ?thesis by (simp add: startswith_def)
qed

text \<open>
  Claim C9. When the strategy's file type is in the table of known headers and the
  buffer is at least as long as the expected magic, the key derived from the header
  always decrypts the buffer to one that starts with the magic: the branch returns
  that buffer with confidence 0.8 and \<^verbatim>\<open>key_found\<close> true, never the 0.6 fallback.
\<close>

theorem known_header_always_verified:
  assumes "strategy_file_type strat = Some ftype"
    and "known_headers ftype = Some expected"
    and "length expected \<le> length content"
  shows "\<exists>decrypted dets.
           apply_known_header_analysis content strat g
             = Inr ((Some decrypted, 0.8, True, dets), g)
           \<and> startswith decrypted expected
           \<and> apply_known_header_analysis content strat g \<noteq> header_fallback content g"
proof -
  let ?key = "map (\<lambda>i. (slice content 0 (length expected) ! i) XOR (expected ! i))
                [0..<length expected]"
  have sw: "startswith (xor_decrypt content ?key) expected"
    by (rule header_key_decrypts [OF assms(3)])
  have run: "apply_known_header_analysis content strat g
      = Inr ((Some (xor_decrypt content ?key), 0.8, True,
              [''key_hex'' \<mapsto> DStr (hex ?key),
               ''decryption_method'' \<mapsto> DStr ''Header-based XOR'',
               ''file_type'' \<mapsto> DStr ftype]), g)"
    using assms sw by (simp add: apply_known_header_analysis_def Let_def)
  have "apply_known_header_analysis content strat g \<noteq> header_fallback content g"
    unfolding run by (simp add: header_fallback_def split: prod.splits)
  with run sw show ?thesis by blast
qed

theorem known_header_always_verified_witness:
  "\<exists>decrypted dets.
     apply_known_header_analysis [0x00, 0x01, 0x02, 0x03, 0x04]
       \<lparr>name = Some ''known_header_analysis'', description = None, key_size_range = None,
        strategy_file_type = Some ''zip'', block_size = None, success_probability = Some 0.6\<rparr>
       \<lparr>randint_at = (\<lambda>_. 0), random_at = (\<lambda>_. 0), drawn = 0\<rparr>
       = Inr ((Some decrypted, 0.8, True, dets),
              \<lparr>randint_at = (\<lambda>_. 0), random_at = (\<lambda>_. 0), drawn = 0\<rparr>)
     \<and> startswith decrypted zip_magic"
proof -
  have t: "known_headers ''zip'' = Some zip_magic" by (simp add: known_headers_def)
  have l: "length zip_magic \<le> length [0x00, 0x01, 0x02, 0x03, 0x04 :: byte]"
    by (simp add: zip_magic_def)
  show ?thesis
    using known_header_always_verified [OF _ t l,
        of "\<lparr>name = Some ''known_header_analysis'', description = None, key_size_range = None,
             strategy_file_type = Some ''zip'', block_size = None,
             success_probability = Some 0.6\<rparr>"
           "\<lparr>randint_at = (\<lambda>_. 0), random_at = (\<lambda>_. 0), drawn = 0\<rparr>"]
    by auto
qed

section \<open>Grading of the outcome\<close>

lemma attempt_decryption_error:
  assumes "run_strategy content strat (random_state eng) = Inl e"
  shows "attempt_decryption clk content strat eng =
           (\<lparr>success_level = ''failed'', decrypted_content = None, confidence = 0,
             key_found = False, message = ''Error during decryption: '' @ error_str e,
             execution_time = end_time clk - start_time clk,
             details = [''error'' \<mapsto> DStr (error_str e)]\<rparr>, eng)"
  using assms by (simp add: attempt_decryption_def)

lemma attempt_decryption_fields:
  assumes "run_strategy content strat (random_state eng) = Inr ((c, conf, found, dets), g')"
  shows "success_level (fst (attempt_decryption clk content strat eng)) = fst (grade c conf)"
    and "decrypted_content (fst (attempt_decryption clk content strat eng)) = c"
    and "confidence (fst (attempt_decryption clk content strat eng)) = conf"
    and "key_found (fst (attempt_decryption clk content strat eng)) = found"
  using assms
  by (simp_all add: attempt_decryption_def Let_def split: prod.splits option.splits)

lemma grade_levels:
  "(fst (grade c conf) = ''full'') = (conf > 0.8 \<and> truthy c)"
  "(fst (grade c conf) = ''partial'') = (0.3 < conf \<and> conf \<le> 0.8 \<and> truthy c)"
  "(fst (grade c conf) = ''failed'') = (\<not> (0.3 < conf \<and> truthy c))"
  by (auto simp add: grade_def)

text \<open>
  Claim C1. Whatever the buffer, the strategy, the engine's state and the clock, the
  outcome of \<^verbatim>\<open>attempt_decryption\<close> has \<^verbatim>\<open>success_level\<close> \<^verbatim>\<open>full\<close> exactly when its
  confidence is above 0.8 and its buffer is present and non-empty, \<^verbatim>\<open>partial\<close> exactly
  when the confidence is above 0.3 and at most 0.8 with such a buffer, and \<^verbatim>\<open>failed\<close>
  in every other case; a non-empty buffer at confidence 0.8 is graded \<^verbatim>\<open>partial\<close>, at
  confidence 0.3 \<^verbatim>\<open>failed\<close>.
\<close>

theorem attempt_decryption_success_level:
  "((success_level (fst (attempt_decryption clk content strat eng)) = ''full'')
      = (confidence (fst (attempt_decryption clk content strat eng)) > 0.8
         \<and> truthy (decrypted_content (fst (attempt_decryption clk content strat eng)))))
   \<and> ((success_level (fst (attempt_decryption clk content strat eng)) = ''partial'')
      = (0.3 < confidence (fst (attempt_decryption clk content strat eng))
         \<and> confidence (fst (attempt_decryption clk content strat eng)) \<le> 0.8
         \<and> truthy (decrypted_content (fst (attempt_decryption clk content strat eng)))))
   \<and> ((success_level (fst (attempt_decryption clk content strat eng)) = ''failed'')
      = (\<not> (0.3 < confidence (fst (attempt_decryption clk content strat eng))
            \<and> truthy (decrypted_content (fst (attempt_decryption clk content strat eng))))))
   \<and> fst (grade (Some (b # bs)) 0.8) = ''partial''
   \<and> fst (grade (Some (b # bs)) 0.3) = ''failed''"
proof (cases "run_strategy content strat (random_state eng)")
  case (Inl e)
  show ?thesis
    by (simp add: attempt_decryption_error [OF Inl] truthy_def grade_def)
next
  case (Inr r)
  obtain c conf found dets g' where r: "r = ((c, conf, found, dets), g')"
    by (metis prod.exhaust)
  note f = attempt_decryption_fields [OF Inr [unfolded r]]
  show ?thesis
    by (simp only: f grade_levels) (simp add: grade_def truthy_def)
qed

section \<open>The result cache\<close>

lemma xor_bruteforce_no_id:
  "apply_xor_bruteforce content strat g = Inr ((c, conf, found, dets), g')
   \<Longrightarrow> dets ''decryption_id'' = None"
  by (auto simp add: apply_xor_bruteforce_def Let_def split: if_splits prod.splits)

lemma known_header_no_id:
  "apply_known_header_analysis content strat g = Inr ((c, conf, found, dets), g')
   \<Longrightarrow> dets ''decryption_id'' = None"
  by (auto simp add: apply_known_header_analysis_def header_fallback_def Let_def
        split: if_splits prod.splits option.splits)

lemma pattern_based_no_id:
  "apply_pattern_based_recovery content strat g = Inr ((c, conf, found, dets), g')
   \<Longrightarrow> dets ''decryption_id'' = None"
  by (auto simp add: apply_pattern_based_recovery_def Let_def split: if_splits prod.splits)

lemma partial_key_no_id:
  "apply_partial_key_recovery content strat g = Inr ((c, conf, found, dets), g')
   \<Longrightarrow> dets ''decryption_id'' = None"
  by (auto simp add: apply_partial_key_recovery_def Let_def split: if_splits prod.splits)

lemma generic_no_id:
  "apply_generic_recovery content strat g = Inr ((c, conf, found, dets), g')
   \<Longrightarrow> dets ''decryption_id'' = None"
  by (auto simp add: apply_generic_recovery_def Let_def split: if_splits prod.splits)

lemma run_strategy_no_id:
  "run_strategy content strat g = Inr ((c, conf, found, dets), g')
   \<Longrightarrow> dets ''decryption_id'' = None"
  unfolding run_strategy_def Let_def
  by (auto dest: xor_bruteforce_no_id known_header_no_id pattern_based_no_id
        partial_key_no_id generic_no_id split: if_splits)

lemma grade_cases:
  "fst (grade c conf) = ''full'' \<or> fst (grade c conf) = ''partial''
   \<or> fst (grade c conf) = ''failed''"
  by (simp add: grade_def)

lemma grade_success_truthy:
  "fst (grade c conf) \<in> {''full'', ''partial''} \<Longrightarrow> truthy c"
  by (auto simp add: grade_def split: if_splits)

text \<open>
  Claim C2. After \<^verbatim>\<open>attempt_decryption\<close> returns, on the exception path too, the cache
  holds an entry under the identifier written to \<^verbatim>\<open>details\<close> exactly when the
  \<^verbatim>\<open>success_level\<close> is \<^verbatim>\<open>full\<close> or \<^verbatim>\<open>partial\<close>. The call changes the cache at that
  identifier only, where it stores the returned buffer, so an identifier that was never
  inserted is still absent; \<^verbatim>\<open>get_decrypted_content\<close> on a new engine returns \<^verbatim>\<open>None\<close>.
\<close>

theorem cache_entry_iff_success:
  "(case attempt_decryption clk content strat eng of
      (out, eng') \<Rightarrow>
        ((\<exists>ident. details out ''decryption_id'' = Some (DStr ident)
                  \<and> get_decrypted_content eng' ident \<noteq> None)
           = (success_level out \<in> {''full'', ''partial''}))
        \<and> (\<forall>ident. get_decrypted_content eng' ident
              = (if details out ''decryption_id'' = Some (DStr ident)
                 then decrypted_content out
                 else get_decrypted_content eng ident)))
   \<and> get_decrypted_content (new_engine g) ident0 = None"
proof -
  let ?main = "case attempt_decryption clk content strat eng of
      (out, eng') \<Rightarrow>
        ((\<exists>ident. details out ''decryption_id'' = Some (DStr ident)
                  \<and> get_decrypted_content eng' ident \<noteq> None)
           = (success_level out \<in> {''full'', ''partial''}))
        \<and> (\<forall>ident. get_decrypted_content eng' ident
              = (if details out ''decryption_id'' = Some (DStr ident)
                 then decrypted_content out
                 else get_decrypted_content eng ident))"
  have new: "get_decrypted_content (new_engine g) ident0 = None"
    by (simp add: get_decrypted_content_def new_engine_def)
  have ?main
  proof (cases "run_strategy content strat (random_state eng)")
    case (Inl e)
    show ?thesis
      by (simp add: attempt_decryption_def Inl get_decrypted_content_def)
  next
    case (Inr r)
    obtain c conf found dets g' where r: "r = ((c, conf, found, dets), g')"
      by (metis prod.exhaust)
    have noid: "dets ''decryption_id'' = None"
      using Inr unfolding r by (rule run_strategy_no_id)
    obtain level msg where lv: "grade c conf = (level, msg)" by (metis prod.exhaust)
    have tr: "level \<in> {''full'', ''partial''} \<Longrightarrow> truthy c"
      using grade_success_truthy [of c conf] lv by simp
    show ?thesis
    proof (cases c)
      case None
      then have "level = ''failed''" using lv by (simp add: grade_def truthy_def)
      then show ?thesis
        using None noid lv
        by (simp add: attempt_decryption_def Inr r get_decrypted_content_def Let_def)
    next
      case (Some bytes)
      show ?thesis
      proof (cases "bytes \<noteq> [] \<and> level \<in> {''full'', ''partial''}")
        case True
        then show ?thesis
          using Some noid lv
          by (auto simp add: attempt_decryption_def Inr r get_decrypted_content_def Let_def)
      next
        case False
        then have "level \<notin> {''full'', ''partial''}"
          using tr Some by (auto simp add: truthy_def)
        then show ?thesis
          using Some noid lv False
          by (auto simp add: attempt_decryption_def Inr r get_decrypted_content_def Let_def)
      qed
    qed
  qed
  with new show ?thesis by (rule conjI [rotated])
qed

section \<open>Totality and error conversion\<close>

lemma nonzero_probability:
  assumes "data \<noteq> []"
  shows "filter (\<lambda>f. f \<noteq> 0) (probabilities data) \<noteq> []"
proof -
  obtain b where b: "b \<in> set data" using assms by (meson last_in_set)
  then have "0 < count_list data b" by (simp add: count_list_0_iff flip: neq0_conv)
  then have "real (count_list data b) / real (length data) \<noteq> 0" using assms by simp
  moreover have "b \<in> set all_bytes" by (simp add: set_all_bytes)
  ultimately have "\<exists>f\<in>set (probabilities data). f \<noteq> 0"
    unfolding probabilities_def by auto
  then show ?thesis by (simp add: filter_empty_conv)
qed

lemma analyze_byte_distribution_returns:
  "\<exists>r. analyze_byte_distribution data = Inr r"
proof (cases "data = []")
  case True
  then show ?thesis by (simp add: analyze_byte_distribution_def)
next
  case False
  then show ?thesis
    using nonzero_probability [OF False]
    by (simp add: analyze_byte_distribution_def Let_def)
qed

lemma length_range_step: "length (range_step stop step) = (stop + step - 1) div step"
  by (simp add: range_step_def)

lemma check_xor_pattern_returns: "\<exists>r. check_xor_pattern data = Inr r"
proof (cases "length data < 100")
  case True
  then have "check_xor_pattern data = Inr False" by (simp add: check_xor_pattern_def)
  then show ?thesis by blast
next
  case False
  then have "100 \<le> min 1000 (length data)" by simp
  then have "10 \<le> (min 1000 (length data) + 10 - 1) div 10" by linarith
  then have "length (range_step (min 1000 (length data)) 10) - 1 \<noteq> 0"
    by (simp only: length_range_step)
  then show ?thesis
    using False by (simp add: check_xor_pattern_def Let_def)
qed

lemma detect_encryption_patterns_returns: "\<exists>r. detect_encryption_patterns data = Inr r"
proof -
  obtain px where "check_xor_pattern data = Inr px"
    using check_xor_pattern_returns by blast
  then show ?thesis by (simp add: detect_encryption_patterns_def)
qed

lemma analyze_encryption_returns: "\<exists>r. analyze_encryption clk content = Inr r"
proof -
  obtain bd where bd: "analyze_byte_distribution content = Inr bd"
    using analyze_byte_distribution_returns by blast
  obtain pa where pa: "detect_encryption_patterns content = Inr pa"
    using detect_encryption_patterns_returns by blast
  show ?thesis by (simp add: analyze_encryption_def bd pa Let_def)
qed

text \<open>
  Claim C4. \<^verbatim>\<open>analyze_encryption\<close> returns its result for every buffer: none of the
  exceptions it could pass on is reachable. \<^verbatim>\<open>attempt_decryption\<close> returns an outcome for
  every buffer, strategy and engine state, and whenever the strategy raises, that outcome
  is \<^verbatim>\<open>failed\<close> with confidence 0, no buffer and the exception's message under
  \<^verbatim>\<open>details.error\<close>, the engine unchanged.
\<close>

theorem analyze_and_recover_total:
  "(\<exists>r. analyze_encryption clk content = Inr r)
   \<and> (\<forall>e. run_strategy content strat (random_state eng) = Inl e \<longrightarrow>
          attempt_decryption clk content strat eng =
            (\<lparr>success_level = ''failed'', decrypted_content = None, confidence = 0,
              key_found = False, message = ''Error during decryption: '' @ error_str e,
              execution_time = end_time clk - start_time clk,
              details = [''error'' \<mapsto> DStr (error_str e)]\<rparr>, eng))"
  using analyze_encryption_returns [of clk content]
  by (auto simp add: attempt_decryption_def)

theorem analyze_and_recover_total_witness:
  "run_strategy [0x01, 0x02, 0x03]
      \<lparr>name = Some ''pattern_based_recovery'', description = None, key_size_range = None,
       strategy_file_type = None, block_size = Some 0, success_probability = Some 0.5\<rparr>
      (random_state (new_engine \<lparr>randint_at = (\<lambda>_. 0), random_at = (\<lambda>_. 0), drawn = 0\<rparr>))
     = Inl ValueErrorRange
   \<and> attempt_decryption \<lparr>start_time = 0, end_time = 1, utc_stamp = ''20240101000000''\<rparr>
        [0x01, 0x02, 0x03]
        \<lparr>name = Some ''pattern_based_recovery'', description = None, key_size_range = None,
         strategy_file_type = None, block_size = Some 0, success_probability = Some 0.5\<rparr>
        (new_engine \<lparr>randint_at = (\<lambda>_. 0), random_at = (\<lambda>_. 0), drawn = 0\<rparr>)
     = (\<lparr>success_level = ''failed'', decrypted_content = None, confidence = 0,
         key_found = False,
         message = ''Error during decryption: range() arg 3 must not be zero'',
         execution_time = 1,
         details = [''error'' \<mapsto> DStr ''range() arg 3 must not be zero'']\<rparr>,
        new_engine \<lparr>randint_at = (\<lambda>_. 0), random_at = (\<lambda>_. 0), drawn = 0\<rparr>)"
proof -
  let ?s = "\<lparr>name = Some ''pattern_based_recovery'', description = None,
             key_size_range = None, strategy_file_type = None, block_size = Some 0,
             success_probability = Some 0.5\<rparr>"
  let ?e = "new_engine \<lparr>randint_at = (\<lambda>_. 0), random_at = (\<lambda>_. 0), drawn = 0\<rparr>"
  let ?c = "\<lparr>start_time = 0, end_time = 1, utc_stamp = ''20240101000000''\<rparr>"
  have r: "run_strategy [0x01, 0x02, 0x03] ?s (random_state ?e) = Inl ValueErrorRange"
    by (simp add: run_strategy_def apply_pattern_based_recovery_def)
  from analyze_and_recover_total [of ?c "[0x01, 0x02, 0x03]" ?s ?e]
  have "attempt_decryption ?c [0x01, 0x02, 0x03] ?s ?e =
      (\<lparr>success_level = ''failed'', decrypted_content = None, confidence = 0,
        key_found = False,
        message = ''Error during decryption: '' @ error_str ValueErrorRange,
        execution_time = end_time ?c - start_time ?c,
        details = [''error'' \<mapsto> DStr (error_str ValueErrorRange)]\<rparr>, ?e)"
    using r by blast
  then show ?thesis using r by simp
qed

section \<open>Attempt identifiers\<close>

lemma attempt_identifier_from_clock:
  assumes "details (fst (attempt_decryption clk content strat eng)) ''decryption_id'' = Some v"
  shows "v = DStr (''decryption_'' @ utc_stamp clk)"
proof (cases "run_strategy content strat (random_state eng)")
  case (Inl e)
  then show ?thesis using assms by (simp add: attempt_decryption_def)
next
  case (Inr r)
  obtain c conf found dets g' where r: "r = ((c, conf, found, dets), g')"
    by (metis prod.exhaust)
  have noid: "dets ''decryption_id'' = None"
    using Inr unfolding r by (rule run_strategy_no_id)
  show ?thesis
    using assms noid
    by (auto simp add: attempt_decryption_def Inr r Let_def
          split: prod.splits option.splits if_splits)
qed

text \<open>
  Claim C6. The identifier is \<^verbatim>\<open>decryption_\<close> followed by the UTC time to the second, so
  it is not distinct from that of every other attempt: two successful calls on distinct
  buffers within one second get the same identifier, and the second call overwrites
  the bytes the first one cached. Here both calls run the known-header strategy for
  \<^verbatim>\<open>exe\<close> at the clock reading \<^verbatim>\<open>20240101000000\<close>, starting from a new engine.
\<close>

theorem same_second_overwrites_cache:
  "(case attempt_decryption \<lparr>start_time = 0, end_time = 1, utc_stamp = ''20240101000000''\<rparr>
          [0x00, 0x00, 0x01]
          \<lparr>name = Some ''known_header_analysis'', description = None, key_size_range = None,
           strategy_file_type = Some ''exe'', block_size = None,
           success_probability = Some 0.6\<rparr>
          (new_engine \<lparr>randint_at = (\<lambda>_. 0), random_at = (\<lambda>_. 0), drawn = 0\<rparr>) of
      (out1, eng1) \<Rightarrow>
        (case attempt_decryption
                \<lparr>start_time = 0, end_time = 1, utc_stamp = ''20240101000000''\<rparr>
                [0x00, 0x00, 0x02]
                \<lparr>name = Some ''known_header_analysis'', description = None,
                 key_size_range = None, strategy_file_type = Some ''exe'',
                 block_size = None, success_probability = Some 0.6\<rparr>
                eng1 of
           (out2, eng2) \<Rightarrow>
             success_level out1 = ''partial'' \<and> success_level out2 = ''partial''
             \<and> decrypted_content out1 = Some [0x4D, 0x5A, 0x4C]
             \<and> decrypted_content out2 = Some [0x4D, 0x5A, 0x4F]
             \<and> details out1 ''decryption_id'' = Some (DStr ''decryption_20240101000000'')
             \<and> details out2 ''decryption_id'' = Some (DStr ''decryption_20240101000000'')
             \<and> get_decrypted_content eng1 ''decryption_20240101000000''
                 = Some [0x4D, 0x5A, 0x4C]
             \<and> get_decrypted_content eng2 ''decryption_20240101000000''
                 = Some [0x4D, 0x5A, 0x4F]
             \<and> dom (decryption_cache eng2) = {''decryption_20240101000000''}))"
  by (simp add: attempt_decryption_def run_strategy_def apply_known_header_analysis_def
        known_headers_def exe_magic_def slice_def xor_decrypt_def startswith_def grade_def
        truthy_def new_engine_def get_decrypted_content_def Let_def upt_rec)

section \<open>The plausibility scorer\<close>

lemma magic_points_cases:
  "magic_points data =
     (if startswith data zip_magic \<or> startswith data png_magic
         \<or> startswith data pdf_magic \<or> startswith data jpeg_magic then 50
      else if startswith data exe_magic then 40
      else 0)"
proof -
  have "\<not> (startswith data exe_magic \<and> startswith data jpeg_magic)"
    by (cases data) (auto simp add: startswith_def exe_magic_def jpeg_magic_def)
  then show ?thesis by (auto simp add: magic_points_def)
qed

lemma magic_points_range: "0 \<le> magic_points data \<and> magic_points data \<le> 50"
  by (simp add: magic_points_def)

lemma markup_points_values: "markup_points t \<in> {0, 15, 20}"
  by (simp add: markup_points_def)

lemma printable_ratio_iff:
  assumes "0 < n"
  shows "(real p / real n > 0.9) = (9 * n < 10 * p)"
proof -
  have "(real p / real n > 0.9) = (0.9 * real n < real p)"
    using assms by (simp add: pos_less_divide_eq)
  also have "\<dots> = (real (9 * n) < real (10 * p))" by (simp add: mult.commute)
  also have "\<dots> = (9 * n < 10 * p)" by (simp only: of_nat_less_iff)
  finally show ?thesis .
qed

lemma score_additive:
  assumes "data \<noteq> []"
  shows "score_decryption_result (Some data) =
     min 100
       (magic_points data
        + (if 9 * min 1000 (length data)
                < 10 * length (filter is_text_byte (take (min 1000 (length data)) data))
           then 40 + markup_points (utf8_decode_ignore (take (min 1000 (length data)) data))
           else 0)
        + (if calculate_entropy (take (min 1000 (length data)) data) < 6 then 20
           else if calculate_entropy (take (min 1000 (length data)) data) < 7 then 10
           else 0))"
proof -
  define n where "n = min 1000 (length data)"
  define sample where "sample = take n data"
  define p where "p = length (filter is_text_byte sample)"
  define h where "h = calculate_entropy sample"
  define m where "m = markup_points (utf8_decode_ignore sample)"
  have n: "0 < n" using assms by (simp add: n_def)
  have ratio: "(real p / real n > 0.9) = (9 * n < 10 * p)"
    by (rule printable_ratio_iff [OF n])
  have "score_decryption_result (Some data) =
      min ((if real p / real n > 0.9 then 0 + magic_points data + 40 + m
            else 0 + magic_points data)
           + (if h < 6 then 20 else if h < 7 then 10 else 0)) 100"
    using assms
    by (simp add: score_decryption_result_def Let_def slice_def n_def sample_def p_def
          h_def m_def)
  also have "\<dots> = min 100 (magic_points data + (if 9 * n < 10 * p then 40 + m else 0)
                       + (if h < 6 then 20 else if h < 7 then 10 else 0))"
    unfolding ratio by (simp add: min.commute add.assoc)
  finally show ?thesis
    unfolding n_def sample_def p_def h_def m_def .
qed

lemma score_range: "0 \<le> score_decryption_result d \<and> score_decryption_result d \<le> 100"
proof (cases d)
  case None
  then show ?thesis by (simp add: score_decryption_result_def)
next
  case (Some data)
  show ?thesis
  proof (cases "data = []")
    case True
    then show ?thesis using Some by (simp add: score_decryption_result_def)
  next
    case False
    have "0 \<le> markup_points t" for t using markup_points_values [of t] by auto
    then show ?thesis
      using magic_points_range [of data]
      unfolding Some score_additive [OF False] by (simp add: add_nonneg_nonneg)
  qed
qed

lemma utf8_decode_ascii:
  "list_all (\<lambda>b. b < 0x80) bs \<Longrightarrow> utf8_decode_ignore bs = map unat bs"
  by (induction bs) simp_all

lemma entropy_two_symbols:
  "calculate_entropy [0x41, 0x41, 0x41, 0x41, 0x41, 0x41, 0x41, 0x41, 0x41, 0x00] < 6"
proof -
  have "calculate_entropy [0x41, 0x41, 0x41, 0x41, 0x41, 0x41, 0x41, 0x41, 0x41, 0x00]
          \<le> log 2 (real 2)"
    by (rule entropy_le_log_card) simp_all
  then show ?thesis by simp
qed

text \<open>
  Claim C7, amended. The score is an integer between 0 and 100, 0 for no buffer and for
  the empty buffer, and otherwise the sum, capped at 100, of 50 for a ZIP, PNG, PDF or
  JPEG magic or 40 for a PE magic; 40 when more than 90% of the first 1000 bytes are
  printable or whitespace, with 20 more for an HTML or XML prefix or 15 more for a
  JSON object; and 20 when the entropy of the first 1000 bytes is below 6.0, or 10 when
  it is below 7.0.
\<close>

theorem score_decryption_result_additive:
  "score_decryption_result None = 0 \<and> score_decryption_result (Some []) = 0
   \<and> 0 \<le> score_decryption_result d \<and> score_decryption_result d \<le> 100
   \<and> markup_points t \<in> {0, 15, 20}
   \<and> score_decryption_result (Some (b # bs)) =
       min 100
         ((if startswith (b # bs) zip_magic \<or> startswith (b # bs) png_magic
              \<or> startswith (b # bs) pdf_magic \<or> startswith (b # bs) jpeg_magic then 50
           else if startswith (b # bs) exe_magic then 40
           else 0)
          + (if 9 * min 1000 (length (b # bs))
                  < 10 * length (filter is_text_byte (take (min 1000 (length (b # bs))) (b # bs)))
             then 40 + markup_points
                         (utf8_decode_ignore (take (min 1000 (length (b # bs))) (b # bs)))
             else 0)
          + (if calculate_entropy (take (min 1000 (length (b # bs))) (b # bs)) < 6 then 20
             else if calculate_entropy (take (min 1000 (length (b # bs))) (b # bs)) < 7 then 10
             else 0))"
proof -
  have ne: "b # bs \<noteq> []" by simp
  have e: "score_decryption_result None = 0" "score_decryption_result (Some []) = 0"
    by (simp_all add: score_decryption_result_def)
  have r: "0 \<le> score_decryption_result d" "score_decryption_result d \<le> 100"
    using score_range [of d] by simp_all
  have s: "score_decryption_result (Some (b # bs)) =
       min 100
         ((if startswith (b # bs) zip_magic \<or> startswith (b # bs) png_magic
              \<or> startswith (b # bs) pdf_magic \<or> startswith (b # bs) jpeg_magic then 50
           else if startswith (b # bs) exe_magic then 40
           else 0)
          + (if 9 * min 1000 (length (b # bs))
                  < 10 * length (filter is_text_byte (take (min 1000 (length (b # bs))) (b # bs)))
             then 40 + markup_points
                         (utf8_decode_ignore (take (min 1000 (length (b # bs))) (b # bs)))
             else 0)
          + (if calculate_entropy (take (min 1000 (length (b # bs))) (b # bs)) < 6 then 20
             else if calculate_entropy (take (min 1000 (length (b # bs))) (b # bs)) < 7 then 10
             else 0))"
    by (rule score_additive [OF ne, unfolded magic_points_cases [of "b # bs"]])
  from e r markup_points_values [of t] s show ?thesis by (intro conjI)
qed

text \<open>
  The claim as stated gives the printable bonus at exactly 90%. Nine letters \<^verbatim>\<open>A\<close> and a
  zero byte are 90% printable: the code scores them 20, the stated rule 60.
\<close>

theorem printable_ninety_percent_counterexample:
  "score_decryption_result
      (Some [0x41, 0x41, 0x41, 0x41, 0x41, 0x41, 0x41, 0x41, 0x41, 0x00]) = 20
   \<and> score_spec [0x41, 0x41, 0x41, 0x41, 0x41, 0x41, 0x41, 0x41, 0x41, 0x00] = 60"
proof
  have ne: "[0x41, 0x41, 0x41, 0x41, 0x41, 0x41, 0x41, 0x41, 0x41, 0x00 :: byte] \<noteq> []"
    by simp
  show "score_decryption_result
      (Some [0x41, 0x41, 0x41, 0x41, 0x41, 0x41, 0x41, 0x41, 0x41, 0x00]) = 20"
    unfolding score_additive [OF ne]
    using entropy_two_symbols
    by (simp add: magic_points_def startswith_def zip_magic_def png_magic_def pdf_magic_def
          exe_magic_def jpeg_magic_def is_text_byte_def)
next
  have d: "utf8_decode_ignore [0x41, 0x41, 0x41, 0x41, 0x41, 0x41, 0x41, 0x41, 0x41, 0x00]
      = map unat [0x41, 0x41, 0x41, 0x41, 0x41, 0x41, 0x41, 0x41, 0x41, 0x00 :: byte]"
    by (rule utf8_decode_ascii) simp
  have m: "markup_points
      (utf8_decode_ignore [0x41, 0x41, 0x41, 0x41, 0x41, 0x41, 0x41, 0x41, 0x41, 0x00]) = 0"
    unfolding d by (simp add: markup_points_def startswith_def codepoints_def)
  show "score_spec [0x41, 0x41, 0x41, 0x41, 0x41, 0x41, 0x41, 0x41, 0x41, 0x00] = 60"
    using entropy_two_symbols m
    by (simp add: score_spec_def Let_def startswith_def zip_magic_def png_magic_def
          pdf_magic_def exe_magic_def jpeg_magic_def is_text_byte_def
          del: utf8_decode_ignore.simps)
qed

section \<open>XOR brute force\<close>

lemma xor_attempt_index: "xor_attempt content n st a = xor_attempt content n st 0"
  by (simp add: xor_attempt_def)

lemma xor_attempt_best:
  "best_score (xor_attempt content n st a)
     = max (best_score st)
         (score_decryption_result (Some (xor_decrypt content (fst (random_key n (search_rng st))))))"
  by (simp add: xor_attempt_def Let_def split: prod.splits)

lemma xor_attempt_rng:
  "search_rng (xor_attempt content n st a) = snd (random_key n (search_rng st))"
  by (simp add: xor_attempt_def Let_def split: prod.splits)

lemma attempts_flat:
  "foldl (xor_attempt content m) st as
     = foldl (\<lambda>s n. xor_attempt content n s 0) st (replicate (length as) m)"
proof (induction as arbitrary: st)
  case Nil
  show ?case by simp
next
  case (Cons a as)
  show ?case
    by (simp add: Cons.IH xor_attempt_index [of content m st a])
qed

lemma key_sizes_flat:
  "foldl (xor_key_size content) st iks
     = foldl (\<lambda>s n. xor_attempt content n s 0) st
         (concat (map (\<lambda>key_size. replicate 10 (nat key_size)) iks))"
proof (induction iks arbitrary: st)
  case Nil
  show ?case by simp
next
  case (Cons k ks)
  have "xor_key_size content st k
      = foldl (\<lambda>s n. xor_attempt content n s 0) st (replicate 10 (nat k))"
    unfolding xor_key_size_def using attempts_flat [of content "nat k" st "[0..<10]"] by simp
  then show ?case by (simp add: Cons.IH)
qed

lemma Max_cons_max:
  fixes a s :: int
  shows "Max (set (max a s # xs)) = Max (set (a # s # xs))"
proof (cases "xs = []")
  case True
  then show ?thesis by simp
next
  case False
  then have ne: "set xs \<noteq> {}" by simp
  have "Max (set (max a s # xs)) = max (max a s) (Max (set xs))"
    using ne by simp
  also have "\<dots> = max a (max s (Max (set xs)))" by (simp only: max.assoc)
  also have "\<dots> = Max (set (a # s # xs))" using ne by simp
  finally show ?thesis .
qed

lemma search_invariant:
  "best_score (foldl (\<lambda>s n. xor_attempt content n s 0) st ns)
     = Max (set (best_score st # observed_scores content ns (search_rng st)))
   \<and> search_rng (foldl (\<lambda>s n. xor_attempt content n s 0) st ns)
     = rng_after ns (search_rng st)"
proof (induction ns arbitrary: st)
  case Nil
  show ?case by (simp add: observed_scores_def)
next
  case (Cons n ns)
  let ?st = "xor_attempt content n st 0"
  let ?k = "fst (random_key n (search_rng st))"
  let ?s = "score_decryption_result (Some (xor_decrypt content ?k))"
  have obs: "observed_scores content (n # ns) (search_rng st)
      = ?s # observed_scores content ns (search_rng ?st)"
    by (simp add: observed_scores_def xor_attempt_rng split: prod.splits)
  have "Max (set (best_score ?st # observed_scores content ns (search_rng ?st)))
      = Max (set (best_score st # ?s # observed_scores content ns (search_rng ?st)))"
    unfolding xor_attempt_best by (rule Max_cons_max)
  then show ?case
    using Cons.IH [of ?st] by (simp add: obs xor_attempt_rng)
qed

lemma search_best_observed:
  "best_score (foldl (xor_key_size content)
       \<lparr>best_score = -1, best_key = None, best_result = None, search_rng = g\<rparr>
       [ksr ! 0 .. ksr ! 1])
     = best_observed content ksr g"
  unfolding key_sizes_flat best_observed_def attempt_sizes_def
  using search_invariant [of content
      "\<lparr>best_score = -1, best_key = None, best_result = None, search_rng = g\<rparr>"]
  by simp

lemma confidence_of_score_low: "(confidence_of_score best < 0.4) = (best < 40)"
  by (simp add: confidence_of_score_def min_def)

lemma xor_bruteforce_characterised:
  assumes "ksr = (case key_size_range strat of None \<Rightarrow> [1, 4] | Some r \<Rightarrow> r)"
    and "2 \<le> length ksr"
  shows "\<exists>c conf found dets g'.
           apply_xor_bruteforce content strat g = Inr ((c, conf, found, dets), g')
           \<and> conf = (if 40 \<le> best_observed content ksr g
                     then min (real_of_int (best_observed content ksr g) / 100) 1
                     else 0.75)
           \<and> found = (if 40 \<le> best_observed content ksr g then conf > 0.5 else True)
           \<and> dets ''score'' = Some (DInt (best_observed content ksr g))"
proof -
  let ?st = "foldl (xor_key_size content)
       \<lparr>best_score = -1, best_key = None, best_result = None, search_rng = g\<rparr>
       [ksr ! 0 .. ksr ! 1]"
  have best: "best_score ?st = best_observed content ksr g"
    by (rule search_best_observed)
  have len: "\<not> length ksr < 2" using assms(2) by simp
  show ?thesis
  proof (cases "40 \<le> best_observed content ksr g")
    case True
    then have hi: "\<not> confidence_of_score (best_observed content ksr g) < 0.4"
      unfolding confidence_of_score_low by simp
    have c: "confidence_of_score (best_observed content ksr g)
        = min (real_of_int (best_observed content ksr g) / 100) 1"
      using True by (simp add: confidence_of_score_def)
    show ?thesis
      using True hi len
      unfolding apply_xor_bruteforce_def assms(1) [symmetric] Let_def best
      by (auto simp add: c min_def)
  next
    case False
    then have lo: "confidence_of_score (best_observed content ksr g) < 0.4"
      unfolding confidence_of_score_low by simp
    obtain dc g' where sim:
      "create_simulated_decryption content False (search_rng ?st) = (dc, g')"
      by (meson surj_pair)
    have "\<exists>dets. apply_xor_bruteforce content strat g = Inr ((Some dc, 0.75, True, dets), g')
            \<and> dets ''score'' = Some (DInt (best_observed content ksr g))"
      using lo len
      unfolding apply_xor_bruteforce_def assms(1) [symmetric] Let_def best sim
      by simp
    then obtain dets where
      run: "apply_xor_bruteforce content strat g = Inr ((Some dc, 0.75, True, dets), g')"
      and sc: "dets ''score'' = Some (DInt (best_observed content ksr g))"
      by blast
    have "apply_xor_bruteforce content strat g = Inr ((Some dc, 0.75, True, dets), g')
        \<and> (0.75::real) = (if 40 \<le> best_observed content ksr g
                     then min (real_of_int (best_observed content ksr g) / 100) 1
                     else 0.75)
        \<and> True = (if 40 \<le> best_observed content ksr g then (0.75::real) > 0.5 else True)
        \<and> dets ''score'' = Some (DInt (best_observed content ksr g))"
      using run sc False by simp
    then show ?thesis by blast
  qed
qed

lemma length_candidate_keys: "length (candidate_keys ns g) = length ns"
  by (induction ns arbitrary: g) (simp_all split: prod.splits)

lemma observed_scores_empty_buffer:
  "observed_scores [] ns g = replicate (length ns) 0"
proof -
  have s: "score_decryption_result (Some (xor_decrypt [] key)) = 0" for key
    by (simp add: xor_decrypt_def score_decryption_result_def)
  have "observed_scores [] ns g = map (\<lambda>key. 0) (candidate_keys ns g)"
    unfolding observed_scores_def s ..
  then show ?thesis by (simp add: map_replicate_const length_candidate_keys)
qed

lemma best_observed_empty_buffer:
  assumes "attempt_sizes ksr \<noteq> []"
  shows "best_observed [] ksr g = 0"
proof -
  have "set (replicate (length (attempt_sizes ksr)) (0::int)) = {0}"
    using assms by simp
  then show ?thesis
    by (simp add: best_observed_def observed_scores_empty_buffer)
qed

lemma attempt_sizes_default: "attempt_sizes [1, 8] \<noteq> []"
proof -
  have "[1 .. 8 :: int] = 1 # [2 .. 8]" by (simp add: upto_rec1)
  then show ?thesis by (simp add: attempt_sizes_def)
qed

lemma candidate_keys_size_zero: "candidate_keys (replicate m 0) g = replicate m []"
  by (induction m) simp_all

lemma score_single_letter: "score_decryption_result (Some [0x41]) = 60"
proof -
  have ne: "[0x41 :: byte] \<noteq> []" by simp
  have "calculate_entropy [0x41] \<le> log 2 (real 1)"
    by (rule entropy_le_log_card) simp_all
  then have h: "calculate_entropy [0x41] < 6" by simp
  have d: "utf8_decode_ignore [0x41] = map unat [0x41 :: byte]"
    by (rule utf8_decode_ascii) simp
  have m: "markup_points (utf8_decode_ignore [0x41]) = 0"
    unfolding d by (simp add: markup_points_def startswith_def codepoints_def)
  show ?thesis
    unfolding score_additive [OF ne]
    using h m
    by (simp add: magic_points_def startswith_def zip_magic_def png_magic_def pdf_magic_def
          exe_magic_def jpeg_magic_def is_text_byte_def del: utf8_decode_ignore.simps)
qed

lemma best_observed_single_letter: "best_observed [0x41] [0, 0] g = 60"
proof -
  have a: "attempt_sizes [0, 0] = replicate 10 0"
    by (simp add: attempt_sizes_def upto_rec1)
  have "observed_scores [0x41] (replicate 10 0) g = replicate 10 60"
    unfolding observed_scores_def candidate_keys_size_zero
    by (simp add: xor_decrypt_def score_single_letter)
  then show ?thesis by (simp add: best_observed_def a)
qed

lemma xor_attempt_result:
  assumes "best_score st < 0
     \<or> (\<exists>key. key \<in> K \<and> best_result st = Some (xor_decrypt content key)
            \<and> score_decryption_result (Some (xor_decrypt content key)) = best_score st)"
  shows "best_score (xor_attempt content n st a) < 0
     \<or> (\<exists>key. key \<in> insert (fst (random_key n (search_rng st))) K
            \<and> best_result (xor_attempt content n st a) = Some (xor_decrypt content key)
            \<and> score_decryption_result (Some (xor_decrypt content key))
                = best_score (xor_attempt content n st a))"
proof -
  let ?k = "fst (random_key n (search_rng st))"
  let ?s = "score_decryption_result (Some (xor_decrypt content ?k))"
  show ?thesis
  proof (cases "?s > best_score st")
    case True
    then have "best_result (xor_attempt content n st a) = Some (xor_decrypt content ?k)"
      and "best_score (xor_attempt content n st a) = ?s"
      by (simp_all add: xor_attempt_def Let_def case_prod_beta)
    then show ?thesis by auto
  next
    case False
    then have "best_result (xor_attempt content n st a) = best_result st"
      and "best_score (xor_attempt content n st a) = best_score st"
      by (simp_all add: xor_attempt_def Let_def case_prod_beta)
    then show ?thesis using assms by auto
  qed
qed

lemma search_result_invariant:
  assumes "best_score st < 0
     \<or> (\<exists>key. key \<in> K \<and> best_result st = Some (xor_decrypt content key)
            \<and> score_decryption_result (Some (xor_decrypt content key)) = best_score st)"
  shows "best_score (foldl (\<lambda>s n. xor_attempt content n s 0) st ns) < 0
     \<or> (\<exists>key. key \<in> K \<union> set (candidate_keys ns (search_rng st))
            \<and> best_result (foldl (\<lambda>s n. xor_attempt content n s 0) st ns)
                = Some (xor_decrypt content key)
            \<and> score_decryption_result (Some (xor_decrypt content key))
                = best_score (foldl (\<lambda>s n. xor_attempt content n s 0) st ns))"
  using assms
proof (induction ns arbitrary: st K)
  case Nil
  then show ?case by simp
next
  case (Cons n ns)
  let ?k = "fst (random_key n (search_rng st))"
  let ?st = "xor_attempt content n st 0"
  have c: "set (candidate_keys (n # ns) (search_rng st))
      = insert ?k (set (candidate_keys ns (search_rng ?st)))"
    by (simp add: xor_attempt_rng case_prod_beta)
  have "K \<union> set (candidate_keys (n # ns) (search_rng st))
      = insert ?k K \<union> set (candidate_keys ns (search_rng ?st))"
    unfolding c by blast
  then show ?case
    using Cons.IH [OF xor_attempt_result [OF Cons.prems, of n 0]] by simp
qed

lemma search_best_result:
  assumes "0 \<le> best_observed content ksr g"
  shows "\<exists>key. key \<in> set (candidate_keys (attempt_sizes ksr) g)
     \<and> best_result (foldl (xor_key_size content)
           \<lparr>best_score = -1, best_key = None, best_result = None, search_rng = g\<rparr>
           [ksr ! 0 .. ksr ! 1]) = Some (xor_decrypt content key)
     \<and> score_decryption_result (Some (xor_decrypt content key))
         = best_observed content ksr g"
proof -
  let ?st0 = "\<lparr>best_score = -1, best_key = None, best_result = None, search_rng = g\<rparr>"
  have init: "best_score ?st0 < 0
     \<or> (\<exists>key. key \<in> {} \<and> best_result ?st0 = Some (xor_decrypt content key)
            \<and> score_decryption_result (Some (xor_decrypt content key)) = best_score ?st0)"
    by simp
  have b: "best_score (foldl (\<lambda>s n. xor_attempt content n s 0) ?st0 (attempt_sizes ksr))
      = best_observed content ksr g"
    using search_best_observed [of content g ksr]
    unfolding key_sizes_flat attempt_sizes_def .
  show ?thesis
    using search_result_invariant [OF init, of "attempt_sizes ksr"] assms
    unfolding key_sizes_flat b attempt_sizes_def [symmetric]
    by (simp add: b)
qed

lemma search_final_rng:
  "search_rng (foldl (xor_key_size content)
       \<lparr>best_score = -1, best_key = None, best_result = None, search_rng = g\<rparr>
       [ksr ! 0 .. ksr ! 1])
     = rng_after (attempt_sizes ksr) g"
  unfolding key_sizes_flat attempt_sizes_def
  using search_invariant [of content
      "\<lparr>best_score = -1, best_key = None, best_result = None, search_rng = g\<rparr>"]
  by simp

lemma simulated_full_keeps_rng:
  "snd (create_simulated_decryption content False g) = g"
  by (simp add: create_simulated_decryption_def Let_def)

lemma xor_bruteforce_result:
  assumes "ksr = (case key_size_range strat of None \<Rightarrow> [1, 4] | Some r \<Rightarrow> r)"
    and "2 \<le> length ksr"
  shows "\<exists>c conf found dets g'.
           apply_xor_bruteforce content strat g = Inr ((c, conf, found, dets), g')
           \<and> conf = (if 40 \<le> best_observed content ksr g
                     then min (real_of_int (best_observed content ksr g) / 100) 1
                     else 0.75)
           \<and> found = (if 40 \<le> best_observed content ksr g then conf > 0.5 else True)
           \<and> dets ''score'' = Some (DInt (best_observed content ksr g))
           \<and> (if 40 \<le> best_observed content ksr g
               then \<exists>key. key \<in> set (candidate_keys (attempt_sizes ksr) g)
                      \<and> c = Some (xor_decrypt content key)
                      \<and> score_decryption_result (Some (xor_decrypt content key))
                          = best_observed content ksr g
               else c = Some (fst (create_simulated_decryption content False
                                     (rng_after (attempt_sizes ksr) g)))
                    \<and> dets ''note'' = Some (DStr
                          ''Simulated successful decryption for demonstration purposes''))
           \<and> g' = rng_after (attempt_sizes ksr) g"
proof -
  let ?b = "best_observed content ksr g"
  let ?st = "foldl (xor_key_size content)
       \<lparr>best_score = -1, best_key = None, best_result = None, search_rng = g\<rparr>
       [ksr ! 0 .. ksr ! 1]"
  have best: "best_score ?st = ?b" by (rule search_best_observed)
  have rng: "search_rng ?st = rng_after (attempt_sizes ksr) g" by (rule search_final_rng)
  have len: "\<not> length ksr < 2" using assms(2) by simp
  show ?thesis
  proof (cases "40 \<le> ?b")
    case True
    then have hi: "\<not> confidence_of_score ?b < 0.4"
      unfolding confidence_of_score_low by simp
    have cf: "confidence_of_score ?b = min (real_of_int ?b / 100) 1"
      using True by (simp add: confidence_of_score_def)
    from True have "0 \<le> ?b" by simp
    from search_best_result [OF this]
    obtain key where key: "key \<in> set (candidate_keys (attempt_sizes ksr) g)"
      and res: "best_result ?st = Some (xor_decrypt content key)"
      and sc: "score_decryption_result (Some (xor_decrypt content key)) = ?b"
      by blast
    have "\<exists>dets. apply_xor_bruteforce content strat g
            = Inr ((Some (xor_decrypt content key), min (real_of_int ?b / 100) 1,
                    min (real_of_int ?b / 100) 1 > 0.5, dets),
                   rng_after (attempt_sizes ksr) g)
          \<and> dets ''score'' = Some (DInt ?b)"
      using hi len
      unfolding apply_xor_bruteforce_def assms(1) [symmetric] Let_def best rng res cf
      by simp
    then obtain dets where
      run: "apply_xor_bruteforce content strat g
            = Inr ((Some (xor_decrypt content key), min (real_of_int ?b / 100) 1,
                    min (real_of_int ?b / 100) 1 > 0.5, dets),
                   rng_after (attempt_sizes ksr) g)"
      and ds: "dets ''score'' = Some (DInt ?b)"
      by blast
    show ?thesis
      apply (rule exI [of _ "Some (xor_decrypt content key)"])
      apply (rule exI [of _ "min (real_of_int ?b / 100) 1"])
      apply (rule exI [of _ "min (real_of_int ?b / 100) 1 > 0.5"])
      apply (rule exI [of _ dets])
      apply (rule exI [of _ "rng_after (attempt_sizes ksr) g"])
      using run ds True key sc by (simp only: if_True simp_thms) blast
  next
    case False
    then have lo: "confidence_of_score ?b < 0.4"
      unfolding confidence_of_score_low by simp
    let ?dc = "fst (create_simulated_decryption content False
                      (rng_after (attempt_sizes ksr) g))"
    have sim: "create_simulated_decryption content False (rng_after (attempt_sizes ksr) g)
        = (?dc, rng_after (attempt_sizes ksr) g)"
      using simulated_full_keeps_rng [of content "rng_after (attempt_sizes ksr) g"]
      by (metis prod.collapse)
    have "\<exists>dets. apply_xor_bruteforce content strat g
            = Inr ((Some ?dc, 0.75, True, dets), rng_after (attempt_sizes ksr) g)
          \<and> dets ''score'' = Some (DInt ?b)
          \<and> dets ''note'' = Some (DStr
                ''Simulated successful decryption for demonstration purposes'')"
      using lo len
      unfolding apply_xor_bruteforce_def assms(1) [symmetric] Let_def best rng
      by (subst sim) simp
    then obtain dets where
      run: "apply_xor_bruteforce content strat g
            = Inr ((Some ?dc, 0.75, True, dets), rng_after (attempt_sizes ksr) g)"
      and ds: "dets ''score'' = Some (DInt ?b)"
      and dn: "dets ''note'' = Some (DStr
                ''Simulated successful decryption for demonstration purposes'')"
      by blast
    show ?thesis
      apply (rule exI [of _ "Some ?dc"])
      apply (rule exI [of _ "0.75"])
      apply (rule exI [of _ True])
      apply (rule exI [of _ dets])
      apply (rule exI [of _ "rng_after (attempt_sizes ksr) g"])
      using run ds dn False by (simp only: if_False simp_thms)
  qed
qed

lemma random_key_constant:
  "randint_at g = (\<lambda>_. v) \<Longrightarrow> random_key n g = (replicate n v, g\<lparr>drawn := drawn g + n\<rparr>)"
proof (induction n arbitrary: g)
  case 0
  show ?case by simp
next
  case (Suc n)
  have "randint_at (g\<lparr>drawn := Suc (drawn g)\<rparr>) = (\<lambda>_. v)" using Suc.prems by simp
  from Suc.IH [OF this] show ?case
    using Suc.prems by (simp add: randint_0_255_def)
qed

lemma candidate_keys_constant:
  "randint_at g = (\<lambda>_. v) \<Longrightarrow> candidate_keys ns g = map (\<lambda>n. replicate n v) ns"
proof (induction ns arbitrary: g)
  case Nil
  show ?case by simp
next
  case (Cons n ns)
  have "randint_at (g\<lparr>drawn := drawn g + n\<rparr>) = (\<lambda>_. v)" using Cons.prems by simp
  from Cons.IH [OF this] show ?case
    by (simp add: random_key_constant [OF Cons.prems])
qed

lemma attempt_sizes_one_two: "attempt_sizes [1, 2] = replicate 10 1 @ replicate 10 2"
proof -
  have "[1 .. 2 :: int] = [1, 2]" by (simp add: upto_rec1)
  then show ?thesis by (simp add: attempt_sizes_def)
qed

lemma candidates_one_two:
  "set (candidate_keys (attempt_sizes [1, 2])
          \<lparr>randint_at = (\<lambda>_. v), random_at = r, drawn = 0\<rparr>) = {[v], [v, v]}"
proof -
  have "randint_at \<lparr>randint_at = (\<lambda>_. v), random_at = r, drawn = 0\<rparr> = (\<lambda>_. v)" by simp
  from candidate_keys_constant [OF this]
  show ?thesis
    unfolding attempt_sizes_one_two
    by (auto simp add: numeral_2_eq_2)
qed

lemma score_upper_case: "score_decryption_result (Some [0x41, 0x42, 0x43]) = 60"
proof -
  have ne: "[0x41, 0x42, 0x43 :: byte] \<noteq> []" by simp
  have "calculate_entropy [0x41, 0x42, 0x43] \<le> log 2 (real 4)"
    by (rule entropy_le_log_card) simp_all
  also have "log 2 (real 4) = 2"
  proof -
    have "log 2 (2 ^ 2) = (2::real)" by (simp only: log_pow_cancel)
    then show ?thesis by simp
  qed
  finally have h: "calculate_entropy [0x41, 0x42, 0x43] < 6" by simp
  have d: "utf8_decode_ignore [0x41, 0x42, 0x43] = map unat [0x41, 0x42, 0x43 :: byte]"
    by (rule utf8_decode_ascii) simp
  have m: "markup_points (utf8_decode_ignore [0x41, 0x42, 0x43]) = 0"
    unfolding d by (simp add: markup_points_def startswith_def codepoints_def)
  show ?thesis
    unfolding score_additive [OF ne]
    using h m
    by (simp add: magic_points_def startswith_def zip_magic_def png_magic_def pdf_magic_def
          exe_magic_def jpeg_magic_def is_text_byte_def del: utf8_decode_ignore.simps)
qed

lemma score_high_bytes: "score_decryption_result (Some [0x80, 0x81, 0x82]) = 20"
proof -
  have ne: "[0x80, 0x81, 0x82 :: byte] \<noteq> []" by simp
  have "calculate_entropy [0x80, 0x81, 0x82] \<le> log 2 (real 4)"
    by (rule entropy_le_log_card) simp_all
  also have "log 2 (real 4) = 2"
  proof -
    have "log 2 (2 ^ 2) = (2::real)" by (simp only: log_pow_cancel)
    then show ?thesis by simp
  qed
  finally have h: "calculate_entropy [0x80, 0x81, 0x82] < 6" by simp
  show ?thesis
    unfolding score_additive [OF ne]
    using h
    by (simp add: magic_points_def startswith_def zip_magic_def png_magic_def pdf_magic_def
          exe_magic_def jpeg_magic_def is_text_byte_def del: utf8_decode_ignore.simps)
qed

lemma decrypt_lower_case:
  "xor_decrypt [0x61, 0x62, 0x63] [0x20] = [0x41, 0x42, 0x43]"
  "xor_decrypt [0x61, 0x62, 0x63] [0x20, 0x20] = [0x41, 0x42, 0x43]"
  by (simp_all add: xor_decrypt_def upt_rec)

lemma decrypt_low_bytes:
  "xor_decrypt [0x00, 0x01, 0x02] [0x80] = [0x80, 0x81, 0x82]"
  "xor_decrypt [0x00, 0x01, 0x02] [0x80, 0x80] = [0x80, 0x81, 0x82]"
  by (simp_all add: xor_decrypt_def upt_rec)

lemma best_observed_lower_case:
  "best_observed [0x61, 0x62, 0x63] [1, 2]
     \<lparr>randint_at = (\<lambda>_. 0x20), random_at = r, drawn = 0\<rparr> = 60"
proof -
  have "set (observed_scores [0x61, 0x62, 0x63] (attempt_sizes [1, 2])
               \<lparr>randint_at = (\<lambda>_. 0x20), random_at = r, drawn = 0\<rparr>) = {60}"
    unfolding observed_scores_def set_map candidates_one_two
    by (simp add: decrypt_lower_case score_upper_case)
  then show ?thesis by (simp add: best_observed_def)
qed

lemma best_observed_low_bytes:
  "best_observed [0x00, 0x01, 0x02] [1, 2]
     \<lparr>randint_at = (\<lambda>_. 0x80), random_at = r, drawn = 0\<rparr> = 20"
proof -
  have "set (observed_scores [0x00, 0x01, 0x02] (attempt_sizes [1, 2])
               \<lparr>randint_at = (\<lambda>_. 0x80), random_at = r, drawn = 0\<rparr>) = {20}"
    unfolding observed_scores_def set_map candidates_one_two
    by (simp add: decrypt_low_bytes score_high_bytes)
  then show ?thesis by (simp add: best_observed_def)
qed

lemma simulated_three_bytes:
  "fst (create_simulated_decryption [0x00, 0x01, 0x02] False g) = [0x44, 0x45, 0x43]"
  by (simp add: create_simulated_decryption_def ascii_def)

text \<open>
  Claim C5, amended. With \<open>best\<close> the highest score observed among the XOR candidates
  tried, the branch returns confidence \<open>min (best / 100) 1\<close> with \<^verbatim>\<open>key_found\<close> exactly when
  that confidence is above 0.5, provided \<open>best\<close> is at least 40, and the buffer it returns
  is then the decryption under a candidate key that scores \<open>best\<close>; when \<open>best\<close> is below
  40 it returns the simulated buffer instead, with confidence 0.75, \<^verbatim>\<open>key_found\<close> true and
  the note of the simulation in the details. The generator is left as it is after the
  candidates were drawn. The range of key sizes must have its two entries.
\<close>

theorem xor_bruteforce_confidence:
  assumes "ksr = (case key_size_range strat of None \<Rightarrow> [1, 4] | Some r \<Rightarrow> r)"
    and "2 \<le> length ksr"
  shows "\<exists>c conf found dets g'.
           apply_xor_bruteforce content strat g = Inr ((c, conf, found, dets), g')
           \<and> conf = (if 40 \<le> best_observed content ksr g
                     then min (real_of_int (best_observed content ksr g) / 100) 1
                     else 0.75)
           \<and> found = (if 40 \<le> best_observed content ksr g then conf > 0.5 else True)
           \<and> dets ''score'' = Some (DInt (best_observed content ksr g))
           \<and> (if 40 \<le> best_observed content ksr g
               then \<exists>key. key \<in> set (candidate_keys (attempt_sizes ksr) g)
                      \<and> c = Some (xor_decrypt content key)
                      \<and> score_decryption_result (Some (xor_decrypt content key))
                          = best_observed content ksr g
               else c = Some (fst (create_simulated_decryption content False
                                     (rng_after (attempt_sizes ksr) g)))
                    \<and> dets ''note'' = Some (DStr
                          ''Simulated successful decryption for demonstration purposes''))
           \<and> g' = rng_after (attempt_sizes ksr) g"
  using assms by (rule xor_bruteforce_result)

theorem xor_bruteforce_confidence_witness:
  "(\<exists>dets g'.
      apply_xor_bruteforce [0x61, 0x62, 0x63]
        \<lparr>name = Some ''xor_bruteforce'', description = None, key_size_range = Some [1, 2],
         strategy_file_type = None, block_size = None, success_probability = Some 0.7\<rparr>
        \<lparr>randint_at = (\<lambda>_. 0x20), random_at = (\<lambda>_. 0), drawn = 0\<rparr>
        = Inr ((Some [0x41, 0x42, 0x43], 0.6, True, dets), g')
      \<and> dets ''score'' = Some (DInt 60))
   \<and> (\<exists>dets g'.
      apply_xor_bruteforce [0x00, 0x01, 0x02]
        \<lparr>name = Some ''xor_bruteforce'', description = None, key_size_range = Some [1, 2],
         strategy_file_type = None, block_size = None, success_probability = Some 0.7\<rparr>
        \<lparr>randint_at = (\<lambda>_. 0x80), random_at = (\<lambda>_. 0), drawn = 0\<rparr>
        = Inr ((Some [0x44, 0x45, 0x43], 0.75, True, dets), g')
      \<and> dets ''score'' = Some (DInt 20)
      \<and> dets ''note'' = Some (DStr
            ''Simulated successful decryption for demonstration purposes''))"
proof
  let ?g = "\<lparr>randint_at = (\<lambda>_. 0x20), random_at = (\<lambda>_. 0), drawn = 0\<rparr>"
  let ?s = "\<lparr>name = Some ''xor_bruteforce'', description = None,
             key_size_range = Some [1, 2], strategy_file_type = None, block_size = None,
             success_probability = Some 0.7\<rparr>"
  have k: "[1, 2] = (case key_size_range ?s of None \<Rightarrow> [1, 4] | Some r \<Rightarrow> r)" by simp
  have l: "2 \<le> length [1, 2 :: int]" by simp
  from xor_bruteforce_confidence [OF k l, of "[0x61, 0x62, 0x63]" ?g]
  obtain c conf found dets g' key where
    run: "apply_xor_bruteforce [0x61, 0x62, 0x63] ?s ?g = Inr ((c, conf, found, dets), g')"
    and v: "conf = 0.6" "found = True" "dets ''score'' = Some (DInt 60)"
    and key: "key \<in> {[0x20], [0x20, 0x20]}"
    and c: "c = Some (xor_decrypt [0x61, 0x62, 0x63] key)"
    unfolding best_observed_lower_case candidates_one_two by auto
  from key c have "c = Some [0x41, 0x42, 0x43]"
    by (auto simp add: decrypt_lower_case)
  with run v
  show "\<exists>dets g'. apply_xor_bruteforce [0x61, 0x62, 0x63] ?s ?g
          = Inr ((Some [0x41, 0x42, 0x43], 0.6, True, dets), g')
      \<and> dets ''score'' = Some (DInt 60)"
    by blast
next
  let ?g = "\<lparr>randint_at = (\<lambda>_. 0x80), random_at = (\<lambda>_. 0), drawn = 0\<rparr>"
  let ?s = "\<lparr>name = Some ''xor_bruteforce'', description = None,
             key_size_range = Some [1, 2], strategy_file_type = None, block_size = None,
             success_probability = Some 0.7\<rparr>"
  have k: "[1, 2] = (case key_size_range ?s of None \<Rightarrow> [1, 4] | Some r \<Rightarrow> r)" by simp
  have l: "2 \<le> length [1, 2 :: int]" by simp
  from xor_bruteforce_confidence [OF k l, of "[0x00, 0x01, 0x02]" ?g]
  obtain c conf found dets g' where
    run: "apply_xor_bruteforce [0x00, 0x01, 0x02] ?s ?g = Inr ((c, conf, found, dets), g')"
    and v: "conf = 0.75" "found = True" "dets ''score'' = Some (DInt 20)"
      "dets ''note'' = Some (DStr
            ''Simulated successful decryption for demonstration purposes'')"
    and c: "c = Some [0x44, 0x45, 0x43]"
    unfolding best_observed_low_bytes simulated_three_bytes by auto
  then show "\<exists>dets g'. apply_xor_bruteforce [0x00, 0x01, 0x02] ?s ?g
          = Inr ((Some [0x44, 0x45, 0x43], 0.75, True, dets), g')
      \<and> dets ''score'' = Some (DInt 20)
      \<and> dets ''note'' = Some (DStr
            ''Simulated successful decryption for demonstration purposes'')"
    by blast
qed

text \<open>
  The claim as stated fails on the empty buffer with the selector's range of key sizes:
  every candidate scores 0, so the stated confidence is \<open>min (0 / 100) 1 = 0\<close>, and the
  branch returns 0.75 with \<^verbatim>\<open>key_found\<close> true.
\<close>

theorem xor_bruteforce_simulated_counterexample:
  "\<exists>c dets g'.
     apply_xor_bruteforce []
       \<lparr>name = Some ''xor_bruteforce'', description = None, key_size_range = Some [1, 8],
        strategy_file_type = None, block_size = None, success_probability = Some 0.7\<rparr>
       \<lparr>randint_at = (\<lambda>_. 0), random_at = (\<lambda>_. 0), drawn = 0\<rparr>
       = Inr ((c, 0.75, True, dets), g')
     \<and> best_observed [] [1, 8] \<lparr>randint_at = (\<lambda>_. 0), random_at = (\<lambda>_. 0), drawn = 0\<rparr> = 0
     \<and> (0.75 :: real) \<noteq> min (real_of_int 0 / 100) 1"
proof -
  let ?g = "\<lparr>randint_at = (\<lambda>_. 0), random_at = (\<lambda>_. 0), drawn = 0\<rparr>"
  let ?s = "\<lparr>name = Some ''xor_bruteforce'', description = None,
             key_size_range = Some [1, 8], strategy_file_type = None, block_size = None,
             success_probability = Some 0.7\<rparr>"
  have k: "[1, 8] = (case key_size_range ?s of None \<Rightarrow> [1, 4] | Some r \<Rightarrow> r)" by simp
  have l: "2 \<le> length [1, 8 :: int]" by simp
  have b: "best_observed [] [1, 8] ?g = 0"
    by (rule best_observed_empty_buffer [OF attempt_sizes_default])
  from xor_bruteforce_characterised [OF k l, of "[]" ?g]
  obtain c conf found dets g' where
    "apply_xor_bruteforce [] ?s ?g = Inr ((c, conf, found, dets), g')"
    "conf = 0.75" "found = True"
    unfolding b by auto
  then have "\<exists>c dets g'. apply_xor_bruteforce [] ?s ?g = Inr ((c, 0.75, True, dets), g')"
    by blast
  with b show ?thesis by simp
qed

end
